theory Spec2Isabelle
  imports Complex_Main "HOL-Library.Log_Nat" "HOL-Library.Multiset" "HOL-Library.Word"
begin

section \<open>JavaScript values\<close>

text \<open>
  The server is JavaScript: every value that flows through \<^verbatim>\<open>withScore\<close>, the row
  mappers and the sorter is a dynamically typed value that came out of
  \<^verbatim>\<open>JSON.parse\<close> or out of a regular-expression capture. Thrown exceptions are values
  of type \<open>error\<close>; a computation that may throw returns \<open>error + 'a\<close>.
\<close>

text \<open>
  A string is a sequence of 16-bit code units. A text written here between quotes
  stands for its code units, one for each character.
\<close>

type_synonym code_unit = "16 word"

type_synonym jsstring = "code_unit list"

definition cu :: "char \<Rightarrow> code_unit" where
  "cu c = of_char c"

definition lit :: "string \<Rightarrow> jsstring" where
  "lit s = map cu s"

datatype error =
    Error jsstring
  | TypeError
  | SyntaxError
  | NetworkError jsstring
  | ExecError jsstring

text \<open>
  A Number is an IEEE 754 binary64. A finite one is represented by its exact rational
  value; the two zeros are identified, since the program never divides and neither
  \<^verbatim>\<open>!==\<close>, truthiness nor subtraction tells them apart.
\<close>

datatype jsnum = NaN | PInf | NInf | Fin rat

text \<open>
  The values \<^verbatim>\<open>JSON.parse\<close> can return, and undefined. An object is the list of its
  own members, each name at most once.
\<close>

datatype jsval =
    Undefined
  | Null
  | Bool bool
  | Num jsnum
  | Str jsstring
  | Arr "jsval list"
  | Obj "(jsstring \<times> jsval) list"

definition bind_err :: "error + 'a \<Rightarrow> ('a \<Rightarrow> error + 'b) \<Rightarrow> error + 'b" where
  "bind_err r f = (case r of Inl e \<Rightarrow> Inl e | Inr v \<Rightarrow> f v)"

subsection \<open>Number arithmetic (round to nearest, ties to even)\<close>

definition pow2 :: "int \<Rightarrow> rat" where
  "pow2 e = power_int 2 e"

text \<open>The binary exponent of a positive rational: \<open>pow2 (ilog2 a) \<le> a < pow2 (ilog2 a + 1)\<close>.\<close>

definition ilog2 :: "rat \<Rightarrow> int" where
  "ilog2 a = (let (p, q) = quotient_of a; d = bitlen p - bitlen q
              in if pow2 d \<le> a then d else d - 1)"

definition round_half_even :: "rat \<Rightarrow> int" where
  "round_half_even m = (let f = \<lfloor>m\<rfloor>; r = m - of_int f
     in if r < 1 / 2 then f else if 1 / 2 < r then f + 1
        else if even f then f else f + 1)"

text \<open>
  Rounding of an exact result to binary64: 53 significant bits, least exponent
  \<open>-1074\<close>, overflow to an infinity from \<open>2 ^ 1024\<close> on.
\<close>

definition rnd :: "rat \<Rightarrow> jsnum" where
  "rnd q = (if q = 0 then Fin 0 else
     let a = \<bar>q\<bar>; u = max (ilog2 a - 52) (- 1074);
         r = of_int (round_half_even (a / pow2 u)) * pow2 u
     in if 2 ^ 1024 \<le> r then (if 0 < q then PInf else NInf)
        else Fin (if 0 < q then r else - r))"

fun jneg :: "jsnum \<Rightarrow> jsnum" where
  "jneg NaN = NaN"
| "jneg PInf = NInf"
| "jneg NInf = PInf"
| "jneg (Fin q) = Fin (- q)"

fun jadd :: "jsnum \<Rightarrow> jsnum \<Rightarrow> jsnum" where
  "jadd NaN _ = NaN"
| "jadd _ NaN = NaN"
| "jadd PInf NInf = NaN"
| "jadd NInf PInf = NaN"
| "jadd PInf _ = PInf"
| "jadd _ PInf = PInf"
| "jadd NInf _ = NInf"
| "jadd _ NInf = NInf"
| "jadd (Fin a) (Fin b) = rnd (a + b)"

definition jsub :: "jsnum \<Rightarrow> jsnum \<Rightarrow> jsnum" where
  "jsub x y = jadd x (jneg y)"

fun jmul :: "jsnum \<Rightarrow> jsnum \<Rightarrow> jsnum" where
  "jmul NaN _ = NaN"
| "jmul _ NaN = NaN"
| "jmul (Fin a) (Fin b) = rnd (a * b)"
| "jmul (Fin a) PInf = (if a = 0 then NaN else if 0 < a then PInf else NInf)"
| "jmul (Fin a) NInf = (if a = 0 then NaN else if 0 < a then NInf else PInf)"
| "jmul PInf (Fin b) = (if b = 0 then NaN else if 0 < b then PInf else NInf)"
| "jmul NInf (Fin b) = (if b = 0 then NaN else if 0 < b then NInf else PInf)"
| "jmul PInf PInf = PInf"
| "jmul NInf NInf = PInf"
| "jmul PInf NInf = NInf"
| "jmul NInf PInf = NInf"

text \<open>The sign tests a sort applies to a comparator's result.\<close>

fun is_pos :: "jsnum \<Rightarrow> bool" where
  "is_pos PInf = True"
| "is_pos (Fin q) = (0 < q)"
| "is_pos _ = False"

fun is_neg :: "jsnum \<Rightarrow> bool" where
  "is_neg NInf = True"
| "is_neg (Fin q) = (q < 0)"
| "is_neg _ = False"

text \<open>A value is a binary64 when rounding leaves it unchanged; NaN is set apart.\<close>

fun is_double :: "jsnum \<Rightarrow> bool" where
  "is_double NaN = False"
| "is_double (Fin q) = (rnd q = Fin q)"
| "is_double _ = True"


text \<open>
  \<^verbatim>\<open>x !== y\<close> on two Numbers: NaN differs from everything, itself included.
\<close>

definition strict_neq :: "jsnum \<Rightarrow> jsnum \<Rightarrow> bool" where
  "strict_neq x y = (x = NaN \<or> y = NaN \<or> x \<noteq> y)"

subsection \<open>Strings\<close>

text \<open>
  White space is what \<^verbatim>\<open>trim\<close> and the string-to-number conversion strip: the white
  space and line terminator code points of the language, all of them single code units.
\<close>

definition is_ws :: "code_unit \<Rightarrow> bool" where
  "is_ws u = (u \<in> {0x9, 0xA, 0xB, 0xC, 0xD, 0x20, 0xA0, 0x1680, 0x2028, 0x2029, 0x202F,
       0x205F, 0x3000, 0xFEFF}
     \<or> (0x2000 \<le> u \<and> u \<le> 0x200A))"

definition trim :: "jsstring \<Rightarrow> jsstring" where
  "trim s = rev (dropWhile is_ws (rev (dropWhile is_ws s)))"

text \<open>
  The capital of a code unit below 256: the ASCII and Latin-1 letters; the sharp s
  becomes two letters, and the capitals of the micro sign and of y with diaeresis lie
  above 255. \<open>all_latin1\<close> tells whether a string stays below 256.
\<close>

definition upper_latin1 :: "code_unit \<Rightarrow> jsstring" where
  "upper_latin1 u =
     (if 0x61 \<le> u \<and> u \<le> 0x7A then [u - 0x20]
      else if u = 0xB5 then [0x39C]
      else if u = 0xDF then [0x53, 0x53]
      else if 0xE0 \<le> u \<and> u \<le> 0xFE \<and> u \<noteq> 0xF7 then [u - 0x20]
      else if u = 0xFF then [0x178]
      else [u])"

fun all_latin1 :: "jsstring \<Rightarrow> bool" where
  "all_latin1 [] = True"
| "all_latin1 (u # us) = (u < 0x100 \<and> all_latin1 us)"

text \<open>
  Iterating a string yields its code points: a high surrogate followed by a low one
  is one element, every other code unit is an element of its own.
\<close>

fun code_points :: "jsstring \<Rightarrow> jsstring list" where
  "code_points [] = []"
| "code_points [u] = [u] # []"
| "code_points (u # v # us) =
     (if 0xD800 \<le> u \<and> u \<le> 0xDBFF \<and> 0xDC00 \<le> v \<and> v \<le> 0xDFFF
      then [u, v] # code_points us
      else [u] # code_points (v # us))"

definition is_digit :: "code_unit \<Rightarrow> bool" where
  "is_digit u = (0x30 \<le> u \<and> u \<le> 0x39)"

definition hex_value :: "code_unit \<Rightarrow> nat option" where
  "hex_value u = (let n = unat u in
     if 48 \<le> n \<and> n \<le> 57 then Some (n - 48)
     else if 65 \<le> n \<and> n \<le> 70 then Some (n - 55)
     else if 97 \<le> n \<and> n \<le> 102 then Some (n - 87)
     else None)"

text \<open>The value of a digit string in a radix; \<open>None\<close> when a character is no digit of it.\<close>

fun radix_value :: "nat \<Rightarrow> nat \<Rightarrow> jsstring \<Rightarrow> nat option" where
  "radix_value b acc [] = Some acc"
| "radix_value b acc (c # cs) =
     (case hex_value c of
        None \<Rightarrow> None
      | Some d \<Rightarrow> if d < b then radix_value b (acc * b + d) cs else None)"

definition digits_value :: "nat \<Rightarrow> jsstring \<Rightarrow> nat option" where
  "digits_value b s = (if s = [] then None else radix_value b 0 s)"

text \<open>An optional sign in front of a literal: the sign and the rest.\<close>

definition split_sign :: "jsstring \<Rightarrow> bool \<times> jsstring" where
  "split_sign s = (case s of
       [] \<Rightarrow> (False, [])
     | c # cs \<Rightarrow> if c = cu CHR ''-'' then (True, cs)
                else if c = cu CHR ''+'' then (False, cs) else (False, s))"

text \<open>
  An unsigned decimal literal: digits, an optional fraction, an optional exponent,
  with a digit on at least one side of the point. The result is the exact value.
\<close>

definition decimal_value :: "jsstring \<Rightarrow> rat option" where
  "decimal_value s =
     (let ip = takeWhile is_digit s; r1 = dropWhile is_digit s;
          dot = (r1 \<noteq> [] \<and> hd r1 = cu CHR ''.'');
          r2 = (if dot then tl r1 else r1);
          fp = (if dot then takeWhile is_digit r2 else []);
          r3 = (if dot then dropWhile is_digit r2 else r2);
          ex = (r3 \<noteq> [] \<and> (hd r3 = cu CHR ''e'' \<or> hd r3 = cu CHR ''E''));
          (eneg, ed) = (if ex then split_sign (tl r3) else (False, []))
      in if ip = [] \<and> fp = [] then None
         else if \<not> ex \<and> r3 \<noteq> [] then None
         else case radix_value 10 0 (ip @ fp) of
            None \<Rightarrow> None
          | Some m \<Rightarrow>
             if \<not> ex then Some (of_nat m / 10 ^ length fp)
             else case digits_value 10 ed of
                None \<Rightarrow> None
              | Some e \<Rightarrow>
                 Some (if eneg then of_nat m / 10 ^ length fp / 10 ^ e
                       else of_nat m / 10 ^ length fp * 10 ^ e))"

text \<open>
  The conversion of a string to a Number: white space is stripped, the empty string
  is 0, then a signed decimal literal or \<^verbatim>\<open>Infinity\<close>, or an unsigned literal in radix
  16, 8 or 2; everything else is NaN.
\<close>

definition radix_literal :: "jsstring \<Rightarrow> jsnum option" where
  "radix_literal t =
     (if length t < 2 \<or> hd t \<noteq> cu CHR ''0'' then None
      else let k = hd (tl t); ds = tl (tl t);
               b = (if k = cu CHR ''x'' \<or> k = cu CHR ''X'' then 16
                    else if k = cu CHR ''o'' \<or> k = cu CHR ''O'' then 8
                    else if k = cu CHR ''b'' \<or> k = cu CHR ''B'' then 2 else (0::nat))
           in if b = 0 then None
              else case digits_value b ds of
                 None \<Rightarrow> Some NaN
               | Some m \<Rightarrow> Some (rnd (of_nat m)))"

definition StringToNumber :: "jsstring \<Rightarrow> jsnum" where
  "StringToNumber s =
     (let t = trim s in
      if t = [] then Fin 0
      else case radix_literal t of
         Some x \<Rightarrow> x
       | None \<Rightarrow>
          let (neg, u) = split_sign t in
          if u = lit ''Infinity'' then (if neg then NInf else PInf)
          else case decimal_value u of
             None \<Rightarrow> NaN
           | Some q \<Rightarrow> rnd (if neg then - q else q))"

subsection \<open>Coercions and property access\<close>

fun ToBoolean :: "jsval \<Rightarrow> bool" where
  "ToBoolean Undefined = False"
| "ToBoolean Null = False"
| "ToBoolean (Bool b) = b"
| "ToBoolean (Num x) = (x \<noteq> NaN \<and> x \<noteq> Fin 0)"
| "ToBoolean (Str s) = (s \<noteq> [])"
| "ToBoolean (Arr _) = True"
| "ToBoolean (Obj _) = True"

text \<open>
  Converting an object to a primitive calls its \<^verbatim>\<open>toString\<close>. A parsed object has the
  inherited one unless it carries a member of that name, which is never callable: then
  the conversion throws a TypeError. An array joins the conversions of its elements.
\<close>

fun throws_on_string :: "jsval \<Rightarrow> bool" where
  "throws_on_string (Obj kvs) = (lit ''toString'' \<in> set (map fst kvs))"
| "throws_on_string (Arr vs) = (\<exists>v \<in> set vs. throws_on_string v)"
| "throws_on_string _ = False"

text \<open>
  The Number of the string an object or array converts to. An object reads
  \<^verbatim>\<open>[object Object]\<close>; an array of two or more elements contains a comma; a one-element
  array reads as its element, where null and undefined read as the empty string and a
  Number reads as a literal of itself.
\<close>

fun string_number :: "jsval \<Rightarrow> jsnum" where
  "string_number (Num x) = x"
| "string_number (Str s) = StringToNumber s"
| "string_number (Arr []) = Fin 0"
| "string_number (Arr [Undefined]) = Fin 0"
| "string_number (Arr [Null]) = Fin 0"
| "string_number (Arr [v]) = string_number v"
| "string_number (Arr (v # w # ws)) = NaN"
| "string_number _ = NaN"

fun ToNumber :: "jsval \<Rightarrow> error + jsnum" where
  "ToNumber Undefined = Inr NaN"
| "ToNumber Null = Inr (Fin 0)"
| "ToNumber (Bool b) = Inr (Fin (if b then 1 else 0))"
| "ToNumber (Num x) = Inr x"
| "ToNumber (Str s) = Inr (StringToNumber s)"
| "ToNumber v = (if throws_on_string v then Inl TypeError else Inr (string_number v))"

fun nullish :: "jsval \<Rightarrow> bool" where
  "nullish Undefined = True"
| "nullish Null = True"
| "nullish _ = False"

text \<open>\<^verbatim>\<open>typeof v === 'object'\<close>, which holds of null too.\<close>

fun typeof_object :: "jsval \<Rightarrow> bool" where
  "typeof_object Null = True"
| "typeof_object (Arr _) = True"
| "typeof_object (Obj _) = True"
| "typeof_object _ = False"

text \<open>
  Reading a data member by name (\<^verbatim>\<open>medalStandings\<close>, \<^verbatim>\<open>rows\<close>, \<^verbatim>\<open>cells\<close>,
  \<^verbatim>\<open>text\<close>: none of them is inherited from a prototype) and reading index 0. Both
  throw on null and undefined; the optional forms \<^verbatim>\<open>?.\<close> give undefined there.
\<close>

fun get_prop :: "jsval \<Rightarrow> jsstring \<Rightarrow> jsval" where
  "get_prop (Obj kvs) k = (case map_of kvs k of None \<Rightarrow> Undefined | Some v \<Rightarrow> v)"
| "get_prop _ k = Undefined"

fun get_index0 :: "jsval \<Rightarrow> jsval" where
  "get_index0 (Arr []) = Undefined"
| "get_index0 (Arr (v # _)) = v"
| "get_index0 (Str []) = Undefined"
| "get_index0 (Str (c # _)) = Str [c]"
| "get_index0 (Obj kvs) = (case map_of kvs (lit ''0'') of None \<Rightarrow> Undefined | Some v \<Rightarrow> v)"
| "get_index0 _ = Undefined"

definition member :: "jsval \<Rightarrow> jsstring \<Rightarrow> error + jsval" where
  "member v k = (if nullish v then Inl TypeError else Inr (get_prop v k))"

definition opt_member :: "jsval \<Rightarrow> jsstring \<Rightarrow> jsval" where
  "opt_member v k = (if nullish v then Undefined else get_prop v k)"

definition opt_index0 :: "jsval \<Rightarrow> jsval" where
  "opt_index0 v = (if nullish v then Undefined else get_index0 v)"



section \<open>Built-in operations taken as given\<close>

text \<open>
  \<^verbatim>\<open>JSON.parse\<close> and the regular expressions are the language's; what they return is
  a parameter of the model. Each regular expression is named after its use:
  \<^item> \<open>medalStandings_exec\<close>: group 1 of the first match of the \<^verbatim>\<open>"medalStandings":\<close>
    pattern, if there is one;
  \<^item> \<open>image_matchAll\<close>: groups 1 to 6 of every match of the \<^verbatim>\<open>Image:\<close> pattern;
  \<^item> \<open>tablerow_matchAll\<close>: groups 1 to 5 of every match of the table-row pattern;
  \<^item> \<open>wikitable_exec\<close>: group 1 of the first match of the wikitable pattern;
  \<^item> \<open>wikirow_matchAll\<close>: groups 1 to 5 of every match of the wiki row pattern;
  \<^item> \<open>strip_tags\<close>, \<open>replace_nbsp\<close>: the two \<^verbatim>\<open>replace\<close> calls on a wiki team name.
  \<^verbatim>\<open>toUpperCase\<close> is computed here for jsstrings of code units below 256; for every other
  jsstring it is the language's Unicode mapping, \<open>unicode_toUpperCase\<close>.
  Every group of these patterns takes part in every match, so a group is a string;
  the patterns handed to \<^verbatim>\<open>matchAll\<close> are global, so the call itself does not throw.
\<close>

record builtins =
  JSON_parse :: "jsstring \<Rightarrow> error + jsval"
  medalStandings_exec :: "jsstring \<Rightarrow> jsstring option"
  image_matchAll :: "jsstring \<Rightarrow> (jsstring \<times> jsstring \<times> jsstring \<times> jsstring \<times> jsstring \<times> jsstring) list"
  tablerow_matchAll :: "jsstring \<Rightarrow> (jsstring \<times> jsstring \<times> jsstring \<times> jsstring \<times> jsstring) list"
  wikitable_exec :: "jsstring \<Rightarrow> jsstring option"
  wikirow_matchAll :: "jsstring \<Rightarrow> (jsstring \<times> jsstring \<times> jsstring \<times> jsstring \<times> jsstring) list"
  strip_tags :: "jsstring \<Rightarrow> jsstring"
  replace_nbsp :: "jsstring \<Rightarrow> jsstring"
  unicode_toUpperCase :: "jsstring \<Rightarrow> jsstring"

definition toUpperCase :: "builtins \<Rightarrow> jsstring \<Rightarrow> jsstring" where
  "toUpperCase B s =
     (if all_latin1 s then concat (map upper_latin1 s) else unicode_toUpperCase B s)"



section \<open>Record Normalizer and Ranking Sorter\<close>

text \<open>
  The object literal handed to \<^verbatim>\<open>withScore\<close> at each of its call sites: \<^verbatim>\<open>code\<close>,
  \<^verbatim>\<open>name\<close>, the three counts and \<^verbatim>\<open>total\<close>, which is \<open>Undefined\<close> where the call site
  leaves it out. The Team it returns: the spread copies \<^verbatim>\<open>code\<close> and \<^verbatim>\<open>name\<close>, the
  other members are overwritten. The coercions run in the order of the source, and the
  first one that throws ends the call.
\<close>

record entry =
  raw_code :: jsval
  raw_name :: jsval
  raw_gold :: jsval
  raw_silver :: jsval
  raw_bronze :: jsval
  raw_total :: jsval

record team =
  code :: jsval
  name :: jsval
  gold :: jsnum
  silver :: jsnum
  bronze :: jsnum
  total_medals :: "jsnum option"
  score :: jsnum

definition withScore :: "entry \<Rightarrow> error + team" where
  "withScore e =
     bind_err (ToNumber (raw_gold e)) (\<lambda>g.
     bind_err (ToNumber (raw_silver e)) (\<lambda>s.
     bind_err (ToNumber (raw_bronze e)) (\<lambda>b.
     bind_err (if ToBoolean (raw_total e) then ToNumber (raw_total e)
               else Inr (jadd (jadd g s) b)) (\<lambda>t.
     Inr \<lparr>code = raw_code e, name = raw_name e,
          gold = g, silver = s, bronze = b,
          total_medals = Some t,
          score = jadd (jadd (jmul g (Fin 3)) (jmul s (Fin (3 / 2)))) (jmul b (Fin 1))\<rparr>))))"

text \<open>\<^verbatim>\<open>t.total ?? 0\<close>: a missing total reads as 0.\<close>

definition total_or_0 :: "team \<Rightarrow> jsnum" where
  "total_or_0 t = (case total_medals t of None \<Rightarrow> Fin 0 | Some x \<Rightarrow> x)"

definition sortTeams_cmp :: "team \<Rightarrow> team \<Rightarrow> jsnum" where
  "sortTeams_cmp a b =
     (if strict_neq (score b) (score a) then jsub (score b) (score a)
      else if strict_neq (gold b) (gold a) then jsub (gold b) (gold a)
      else if strict_neq (silver b) (silver a) then jsub (silver b) (silver a)
      else if strict_neq (bronze b) (bronze a) then jsub (bronze b) (bronze a)
      else jsub (total_or_0 b) (total_or_0 a))"

text \<open>
  \<^verbatim>\<open>Array.prototype.sort\<close> with a comparator, as the engine of Node.js (V8) carries
  it out. The comparator's result counts by its sign, NaN as 0. The engine first takes
  the longest run at the front that is already in order, weakly ascending or strictly
  descending by the comparator applied to each element and its predecessor, and
  reverses it if it is descending. Then it inserts each further element into the
  sorted front by binary search, behind the elements it does not precede. An array of
  fewer than two elements is returned as it is. An array of 64 or more elements the
  engine cuts into runs that it sorts in this way and then merges; the merge is not
  modelled, which changes nothing where the comparator is consistent.
\<close>

fun run_split ::
  "bool \<Rightarrow> ('a \<Rightarrow> 'a \<Rightarrow> jsnum) \<Rightarrow> 'a \<Rightarrow> 'a list \<Rightarrow> 'a list \<times> 'a list" where
  "run_split d cmp prev [] = ([], [])"
| "run_split d cmp prev (x # xs) =
     (if is_neg (cmp x prev) = d
      then (case run_split d cmp x xs of (r, rest) \<Rightarrow> (x # r, rest))
      else ([], x # xs))"

fun count_and_make_run :: "('a \<Rightarrow> 'a \<Rightarrow> jsnum) \<Rightarrow> 'a list \<Rightarrow> 'a list \<times> 'a list" where
  "count_and_make_run cmp (x0 # x1 # xs) =
     (let d = is_neg (cmp x1 x0) in
      case run_split d cmp x1 xs of
        (r, rest) \<Rightarrow> (if d then rev (x0 # x1 # r) else x0 # x1 # r, rest))"
| "count_and_make_run cmp xs = (xs, [])"

text \<open>
  The place of \<open>pivot\<close> in the sorted front \<open>a\<close>, searched between \<open>left\<close> and
  \<open>right\<close>; the search only reads positions below \<open>right\<close>, which starts as the
  length of \<open>a\<close>.
\<close>

function bin_search ::
  "('a \<Rightarrow> 'a \<Rightarrow> jsnum) \<Rightarrow> 'a \<Rightarrow> 'a list \<Rightarrow> nat \<Rightarrow> nat \<Rightarrow> nat" where
  "bin_search cmp pivot a left right =
     (if left < right
      then (let mid = left + (right - left) div 2 in
            if is_neg (cmp pivot (a ! mid)) then bin_search cmp pivot a left mid
            else bin_search cmp pivot a (mid + 1) right)
      else left)"
  by pat_completeness auto
termination
  by (relation "measure (\<lambda>(cmp, pivot, a, left, right). right - left)") auto

declare bin_search.simps [simp del]

definition bin_insert :: "('a \<Rightarrow> 'a \<Rightarrow> jsnum) \<Rightarrow> 'a list \<Rightarrow> 'a \<Rightarrow> 'a list" where
  "bin_insert cmp a pivot =
     (let k = bin_search cmp pivot a 0 (length a) in take k a @ pivot # drop k a)"

definition array_sort :: "('a \<Rightarrow> 'a \<Rightarrow> jsnum) \<Rightarrow> 'a list \<Rightarrow> 'a list" where
  "array_sort cmp xs =
     (case count_and_make_run cmp xs of (run, rest) \<Rightarrow> foldl (bin_insert cmp) run rest)"

definition sortTeams :: "team list \<Rightarrow> team list" where
  "sortTeams list = array_sort sortTeams_cmp list"

text \<open>The order the comparator stands for: \<open>a\<close> may come before \<open>b\<close>.\<close>

definition ranks_before :: "team \<Rightarrow> team \<Rightarrow> bool" where
  "ranks_before a b = (\<not> is_pos (sortTeams_cmp a b))"

definition numeric_team :: "team \<Rightarrow> bool" where
  "numeric_team t = (is_double (score t) \<and> is_double (gold t) \<and> is_double (silver t)
     \<and> is_double (bronze t) \<and> is_double (total_or_0 t))"

section \<open>Source extractors\<close>

subsection \<open>Rows of the medal standings\<close>

fun map_err :: "('a \<Rightarrow> error + 'b) \<Rightarrow> 'a list \<Rightarrow> error + 'b list" where
  "map_err f [] = Inr []"
| "map_err f (x # xs) =
     bind_err (f x) (\<lambda>y. bind_err (map_err f xs) (\<lambda>ys. Inr (y # ys)))"

text \<open>
  \<^verbatim>\<open>const [countryCell, gold, silver, bronze, total] = cells\<close>: the first five values
  of an array or of a string (its code points), undefined where they run out; a
  TypeError on anything that cannot be iterated.
\<close>

definition nth_or_undefined :: "jsval list \<Rightarrow> nat \<Rightarrow> jsval" where
  "nth_or_undefined vs i = (if i < length vs then vs ! i else Undefined)"

fun destructure5 :: "jsval \<Rightarrow> error + jsval \<times> jsval \<times> jsval \<times> jsval \<times> jsval" where
  "destructure5 (Arr vs) =
     Inr (nth_or_undefined vs 0, nth_or_undefined vs 1, nth_or_undefined vs 2,
          nth_or_undefined vs 3, nth_or_undefined vs 4)"
| "destructure5 (Str s) =
     (let vs = map Str (code_points s) in
      Inr (nth_or_undefined vs 0, nth_or_undefined vs 1, nth_or_undefined vs 2,
           nth_or_undefined vs 3, nth_or_undefined vs 4))"
| "destructure5 _ = Inl TypeError"

text \<open>
  \<^verbatim>\<open>name.slice(0, 3).toUpperCase()\<close>: only a string has both methods. An array has
  \<^verbatim>\<open>slice\<close> but its result has no \<^verbatim>\<open>toUpperCase\<close>; on every other value the call of a
  missing or non-callable member throws.
\<close>

fun slice3_upper :: "builtins \<Rightarrow> jsval \<Rightarrow> error + jsval" where
  "slice3_upper B (Str s) = Inr (Str (toUpperCase B (take 3 s)))"
| "slice3_upper B _ = Inl TypeError"

text \<open>The callback of \<^verbatim>\<open>rows.map\<close>, the same in both extractors that read the JSON shape.\<close>

definition row_to_team :: "builtins \<Rightarrow> jsval \<Rightarrow> error + team" where
  "row_to_team B row =
     bind_err (member row (lit ''cells'')) (\<lambda>cells.
     bind_err (destructure5 (if ToBoolean cells then cells else Arr []))
       (\<lambda>(countryCell, gold, silver, bronze, total).
     bind_err (if typeof_object countryCell then member countryCell (lit ''text'')
               else Inr countryCell) (\<lambda>name.
     bind_err (if ToBoolean name then slice3_upper B name else Inr (Str [])) (\<lambda>code.
     withScore \<lparr>raw_code = code,
                raw_name = (if ToBoolean name then name else Str []),
                raw_gold = gold, raw_silver = silver, raw_bronze = bronze,
                raw_total = total\<rparr>))))"

text \<open>\<^verbatim>\<open>rows.map(...)\<close>: only an array has the method.\<close>

fun rows_map :: "builtins \<Rightarrow> jsval \<Rightarrow> error + team list" where
  "rows_map B (Arr rows) = map_err (row_to_team B) rows"
| "rows_map B _ = Inl TypeError"

text \<open>\<^verbatim>\<open>standings?.[0]?.rows || []\<close> and \<^verbatim>\<open>data?.medalStandings?.[0]?.rows || []\<close>.\<close>

definition standings_rows :: "jsval \<Rightarrow> jsval" where
  "standings_rows standings =
     (let r = opt_member (opt_index0 standings) (lit ''rows'')
      in if ToBoolean r then r else Arr [])"

definition data_rows :: "jsval \<Rightarrow> jsval" where
  "data_rows data = standings_rows (opt_member data (lit ''medalStandings''))"

subsection \<open>Primary-Page Extractor\<close>

text \<open>
  The body of the \<^verbatim>\<open>try\<close> block: \<open>Inr (Some teams)\<close> is its \<^verbatim>\<open>return\<close>, \<open>Inr None\<close> is
  falling out of it with no team, \<open>Inl\<close> is a throw, which the \<^verbatim>\<open>catch\<close> turns into
  falling out as well (it only logs).
\<close>

definition embedded_json_teams :: "builtins \<Rightarrow> jsstring \<Rightarrow> error + team list option" where
  "embedded_json_teams B fragment =
     bind_err (JSON_parse B fragment) (\<lambda>standings.
     bind_err (rows_map B (standings_rows standings)) (\<lambda>teams.
     Inr (if teams \<noteq> [] then Some (sortTeams teams) else None)))"

definition image_team :: "jsstring \<times> jsstring \<times> jsstring \<times> jsstring \<times> jsstring \<times> jsstring \<Rightarrow> error + team" where
  "image_team m = (case m of (m1, m2, m3, m4, m5, m6) \<Rightarrow>
     withScore \<lparr>raw_code = Str m1, raw_name = Str (trim m2),
                raw_gold = Str m3, raw_silver = Str m4, raw_bronze = Str m5,
                raw_total = Str m6\<rparr>)"

definition tablerow_team :: "jsstring \<times> jsstring \<times> jsstring \<times> jsstring \<times> jsstring \<Rightarrow> error + team" where
  "tablerow_team m = (case m of (m1, m2, m3, m4, m5) \<Rightarrow>
     withScore \<lparr>raw_code = Str m1, raw_name = Str (trim m2),
                raw_gold = Str m3, raw_silver = Str m4, raw_bronze = Str m5,
                raw_total = Undefined\<rparr>)"

definition pattern_teams :: "builtins \<Rightarrow> jsstring \<Rightarrow> error + team list" where
  "pattern_teams B html =
     bind_err (map_err image_team (image_matchAll B html)) (\<lambda>teams.
     bind_err (if teams = [] then map_err tablerow_team (tablerow_matchAll B html)
               else Inr teams) (\<lambda>teams'.
     Inr (sortTeams teams')))"

definition parseFromHtml :: "builtins \<Rightarrow> jsstring \<Rightarrow> error + team list" where
  "parseFromHtml B html =
     (case medalStandings_exec B html of
        None \<Rightarrow> pattern_teams B html
      | Some fragment \<Rightarrow>
         (case embedded_json_teams B fragment of
            Inr (Some teams) \<Rightarrow> Inr teams
          | Inr None \<Rightarrow> pattern_teams B html
          | Inl err \<Rightarrow> pattern_teams B html))"

subsection \<open>Secondary-Page Extractor\<close>

definition wikirow_team :: "builtins \<Rightarrow> jsstring \<times> jsstring \<times> jsstring \<times> jsstring \<times> jsstring \<Rightarrow> error + team" where
  "wikirow_team B m = (case m of (m1, m2, m3, m4, m5) \<Rightarrow>
     let nameText = trim (replace_nbsp B (strip_tags B m1)) in
     withScore \<lparr>raw_code = Str (toUpperCase B (take 3 nameText)), raw_name = Str nameText,
                raw_gold = Str m2, raw_silver = Str m3, raw_bronze = Str m4,
                raw_total = Str m5\<rparr>)"

definition parseWikipedia :: "builtins \<Rightarrow> jsstring \<Rightarrow> error + team list" where
  "parseWikipedia B html =
     (case wikitable_exec B html of
        None \<Rightarrow> Inr []
      | Some tbody \<Rightarrow>
         bind_err (map_err (wikirow_team B) (wikirow_matchAll B tbody)) (\<lambda>teams.
         Inr (sortTeams teams)))"


section \<open>Transport Layer\<close>

text \<open>
  What the outside world answers is an input of the model. A \<^verbatim>\<open>fetch\<close> either rejects
  or resolves to a response whose body can be read or not; \<^verbatim>\<open>execFile\<close> of curl
  either rejects or delivers its standard output. What the program does to the world
  is the list of requests it issued, in order.
\<close>

record response =
  ok :: bool
  status :: nat
  body :: "error + jsstring"

datatype fetch_result = Rejects error | Resolves response

type_synonym exec_result = "error + jsstring"

type_synonym headers = "(jsstring \<times> jsstring) list"

datatype event =
    Fetch jsstring headers
  | ExecFile jsstring "jsstring list"

function decimal :: "nat \<Rightarrow> jsstring" where
  "decimal n = (if n < 10 then [of_nat (48 + n)]
                else decimal (n div 10) @ [of_nat (48 + n mod 10)])"
  by pat_completeness auto
termination
  by (relation "measure id") auto

declare decimal.simps [simp del]

text \<open>\<^verbatim>\<open>opts.headers?.['User-Agent']\<close>, and whether it is a non-empty string.\<close>

definition user_agent :: "headers \<Rightarrow> jsstring option" where
  "user_agent hs = (case map_of hs (lit ''User-Agent'') of
       None \<Rightarrow> None
     | Some ua \<Rightarrow> if ua = [] then None else Some ua)"

text \<open>The \<^verbatim>\<open>try\<close> block of \<^verbatim>\<open>httpGetJson\<close>: the direct fetch, the status check, \<^verbatim>\<open>res.json()\<close>.\<close>

definition direct_json :: "builtins \<Rightarrow> fetch_result \<Rightarrow> error + jsval" where
  "direct_json B fr = (case fr of
       Rejects e \<Rightarrow> Inl e
     | Resolves res \<Rightarrow>
         if \<not> ok res then Inl (Error (lit ''HTTP '' @ decimal (status res)))
         else bind_err (body res) (JSON_parse B))"

definition curl_json_args :: "jsstring \<Rightarrow> headers \<Rightarrow> jsstring list" where
  "curl_json_args url hs =
     [lit ''-sL'', lit ''-H'',
      lit ''User-Agent: '' @ (case user_agent hs of None \<Rightarrow> lit ''Mozilla/5.0'' | Some ua \<Rightarrow> ua),
      url]"

definition httpGetJson ::
  "builtins \<Rightarrow> fetch_result \<Rightarrow> exec_result \<Rightarrow> jsstring \<Rightarrow> headers \<Rightarrow> (error + jsval) \<times> event list" where
  "httpGetJson B fr cr url hs =
     (case direct_json B fr of
        Inr v \<Rightarrow> (Inr v, [Fetch url hs])
      | Inl err \<Rightarrow>
         (case bind_err cr (JSON_parse B) of
            Inr v \<Rightarrow> (Inr v, [Fetch url hs, ExecFile (lit ''curl'') (curl_json_args url hs)])
          | Inl curlErr \<Rightarrow> (Inl err, [Fetch url hs, ExecFile (lit ''curl'') (curl_json_args url hs)])))"

definition direct_text :: "fetch_result \<Rightarrow> error + jsstring" where
  "direct_text fr = (case fr of
       Rejects e \<Rightarrow> Inl e
     | Resolves res \<Rightarrow>
         if \<not> ok res then Inl (Error (lit ''HTTP '' @ decimal (status res)))
         else body res)"

definition curl_text_args :: "jsstring \<Rightarrow> headers \<Rightarrow> jsstring list" where
  "curl_text_args url hs =
     (case user_agent hs of
        None \<Rightarrow> [lit ''-sL'', url]
      | Some ua \<Rightarrow> [lit ''-H'', lit ''User-Agent: '' @ ua, lit ''-sL'', url])"

definition httpGetText ::
  "fetch_result \<Rightarrow> exec_result \<Rightarrow> jsstring \<Rightarrow> headers \<Rightarrow> (error + jsstring) \<times> event list" where
  "httpGetText fr cr url hs =
     (case direct_text fr of
        Inr v \<Rightarrow> (Inr v, [Fetch url hs])
      | Inl err \<Rightarrow>
         (case cr of
            Inr stdout \<Rightarrow> (Inr stdout, [Fetch url hs, ExecFile (lit ''curl'') (curl_text_args url hs)])
          | Inl curlErr \<Rightarrow> (Inl err, [Fetch url hs, ExecFile (lit ''curl'') (curl_text_args url hs)])))"

section \<open>Structured-API Extractor and Fallback Orchestrator\<close>

text \<open>The configuration read from the environment at start-up.\<close>

record config =
  API_URL :: jsstring
  PAGE_URL :: jsstring
  WIKI_URL :: jsstring
  PAMEDIA_KEY :: "jsstring option"

text \<open>
  One run issues each of its six requests at most once, so the world is the answer
  to each of them.
\<close>

record world =
  api_fetch :: fetch_result
  api_curl :: exec_result
  page_fetch :: fetch_result
  page_curl :: exec_result
  wiki_fetch :: fetch_result
  wiki_curl :: exec_result

definition medal_agent :: jsstring where
  "medal_agent = lit ''Mozilla/5.0 (MedalTable/1.0; +https://example.com/medal-table)''"

definition api_headers :: "config \<Rightarrow> headers" where
  "api_headers cfg =
     [(lit ''User-Agent'', medal_agent), (lit ''accept'', lit ''application/json, text/plain, */*'')]
     @ (case PAMEDIA_KEY cfg of
          None \<Rightarrow> []
        | Some k \<Rightarrow> if k = [] then [] else [(lit ''apikey'', k)])"

definition page_headers :: headers where
  "page_headers = [(lit ''User-Agent'', medal_agent)]"

text \<open>What \<^verbatim>\<open>fetchApiJson\<close> does with the data once it has them.\<close>

definition api_teams :: "builtins \<Rightarrow> jsval \<Rightarrow> error + team list" where
  "api_teams B data =
     bind_err (rows_map B (data_rows data)) (\<lambda>teams.
     if teams = [] then Inl (Error (lit ''API returned no medal entries''))
     else Inr (sortTeams teams))"

definition fetchApiJson :: "builtins \<Rightarrow> config \<Rightarrow> world \<Rightarrow> (error + team list) \<times> event list" where
  "fetchApiJson B cfg W =
     (case httpGetJson B (api_fetch W) (api_curl W) (API_URL cfg) (api_headers cfg) of
        (Inl e, tr) \<Rightarrow> (Inl e, tr)
      | (Inr data, tr) \<Rightarrow> (api_teams B data, tr))"

definition terminal_error :: error where
  "terminal_error = Error (lit ''Could not parse medal table from source HTML'')"

text \<open>The Wikipedia step of \<^verbatim>\<open>fetchMedals\<close>, entered when the page gave no team.\<close>

definition wiki_step :: "builtins \<Rightarrow> config \<Rightarrow> world \<Rightarrow> (error + team list) \<times> event list" where
  "wiki_step B cfg W =
     (case httpGetText (wiki_fetch W) (wiki_curl W) (WIKI_URL cfg) page_headers of
        (Inl e, tr) \<Rightarrow> (Inl e, tr)
      | (Inr wikiHtml, tr) \<Rightarrow> (parseWikipedia B wikiHtml, tr))"

text \<open>
  Everything after the \<^verbatim>\<open>try\<close> around the API call. The warnings written to the
  console are left out here and in \<^verbatim>\<open>parseFromHtml\<close>.
\<close>

definition html_fallback :: "builtins \<Rightarrow> config \<Rightarrow> world \<Rightarrow> (error + team list) \<times> event list" where
  "html_fallback B cfg W =
     (case httpGetText (page_fetch W) (page_curl W) (PAGE_URL cfg) page_headers of
        (Inl e, tr) \<Rightarrow> (Inl e, tr)
      | (Inr html, tr) \<Rightarrow>
         (case parseFromHtml B html of
            Inl e \<Rightarrow> (Inl e, tr)
          | Inr teams \<Rightarrow>
             (case (if teams = [] then wiki_step B cfg W else (Inr teams, [])) of
                (Inl e, tr') \<Rightarrow> (Inl e, tr @ tr')
              | (Inr teams', tr') \<Rightarrow>
                 (if teams' = [] then Inl terminal_error else Inr teams', tr @ tr'))))"

definition fetchMedals :: "builtins \<Rightarrow> config \<Rightarrow> world \<Rightarrow> (error + team list) \<times> event list" where
  "fetchMedals B cfg W =
     (case fetchApiJson B cfg W of
        (Inr teams, tr) \<Rightarrow> (Inr teams, tr)
      | (Inl apiErr, tr) \<Rightarrow>
         (case html_fallback B cfg W of (r, tr') \<Rightarrow> (r, tr @ tr')))"

text \<open>
  The three tiers on their own, as \<^verbatim>\<open>fetchMedals\<close> runs them: what each yields and
  which requests it issues. The page tier is the fetch of the page followed by
  \<^verbatim>\<open>parseFromHtml\<close>; its fetch alone is \<open>page_html\<close>.
\<close>

definition api_tier :: "builtins \<Rightarrow> config \<Rightarrow> world \<Rightarrow> error + team list" where
  "api_tier B cfg W = fst (fetchApiJson B cfg W)"

definition api_requests :: "builtins \<Rightarrow> config \<Rightarrow> world \<Rightarrow> event list" where
  "api_requests B cfg W = snd (fetchApiJson B cfg W)"

definition page_html :: "config \<Rightarrow> world \<Rightarrow> error + jsstring" where
  "page_html cfg W = fst (httpGetText (page_fetch W) (page_curl W) (PAGE_URL cfg) page_headers)"

definition page_requests :: "config \<Rightarrow> world \<Rightarrow> event list" where
  "page_requests cfg W = snd (httpGetText (page_fetch W) (page_curl W) (PAGE_URL cfg) page_headers)"

definition page_tier :: "builtins \<Rightarrow> config \<Rightarrow> world \<Rightarrow> error + team list" where
  "page_tier B cfg W = bind_err (page_html cfg W) (parseFromHtml B)"

definition wiki_html :: "config \<Rightarrow> world \<Rightarrow> error + jsstring" where
  "wiki_html cfg W = fst (httpGetText (wiki_fetch W) (wiki_curl W) (WIKI_URL cfg) page_headers)"

definition wiki_requests :: "config \<Rightarrow> world \<Rightarrow> event list" where
  "wiki_requests cfg W = snd (httpGetText (wiki_fetch W) (wiki_curl W) (WIKI_URL cfg) page_headers)"

definition wiki_tier :: "builtins \<Rightarrow> config \<Rightarrow> world \<Rightarrow> error + team list" where
  "wiki_tier B cfg W = bind_err (wiki_html cfg W) (parseWikipedia B)"

text \<open>A tier fails when it throws or yields no team.\<close>

definition tier_failed :: "error + team list \<Rightarrow> bool" where
  "tier_failed r = (case r of Inl e \<Rightarrow> True | Inr teams \<Rightarrow> teams = [])"

definition throws :: "error + 'a \<Rightarrow> bool" where
  "throws r = (case r of Inl e \<Rightarrow> True | Inr v \<Rightarrow> False)"

text \<open>
  The ranking as the specification words it: the order of Numbers, and the five keys
  of a team in their priority (score, gold, silver, bronze, total, a missing total
  counting as 0); \<open>lexless\<close> compares key lists of one length from the left.
\<close>

fun jless :: "jsnum \<Rightarrow> jsnum \<Rightarrow> bool" where
  "jless (Fin a) (Fin b) = (a < b)"
| "jless NInf (Fin b) = True"
| "jless NInf PInf = True"
| "jless (Fin a) PInf = True"
| "jless _ _ = False"

fun lexless :: "jsnum list \<Rightarrow> jsnum list \<Rightarrow> bool" where
  "lexless (x # xs) (y # ys) = (jless x y \<or> (x = y \<and> lexless xs ys))"
| "lexless _ _ = False"

definition key_of :: "team \<Rightarrow> jsnum list" where
  "key_of t = [score t, gold t, silver t, bronze t,
                (case total_medals t of None \<Rightarrow> Fin 0 | Some x \<Rightarrow> x)]"

section \<open>A sample world\<close>

text \<open>
  Concrete inputs on which the statements below are evaluated: the API answer with no
  rows, a page in which nothing matches, a wiki page with one row, and built-ins that
  answer for exactly these texts.
\<close>

definition empty_standings_text :: jsstring where
  \<open>empty_standings_text = lit ''{"medalStandings":[{"rows":[]}]}''\<close>

definition norway_standings_text :: jsstring where
  \<open>norway_standings_text =
     lit ''{"medalStandings":[{"rows":[{"cells":["Norway","12","7","7"]}]}]}''\<close>

definition empty_standings :: jsval where
  "empty_standings = Obj [(lit ''medalStandings'', Arr [Obj [(lit ''rows'', Arr [])]])]"

definition norway_row :: jsval where
  "norway_row = Obj [(lit ''cells'', Arr [Str (lit ''Norway''), Str (lit ''12''), Str (lit ''7''), Str (lit ''7'')])]"

definition norway_standings :: jsval where
  "norway_standings = Obj [(lit ''medalStandings'', Arr [Obj [(lit ''rows'', Arr [norway_row])]])]"

definition norway :: team where
  "norway = \<lparr>code = Str (lit ''NOR''), name = Str (lit ''Norway''), gold = Fin 12, silver = Fin 7,
     bronze = Fin 7, total_medals = Some (Fin 26), score = Fin (107 / 2)\<rparr>"

definition sample_builtins :: builtins where
  "sample_builtins = \<lparr>
     JSON_parse = (\<lambda>s. if s = empty_standings_text then Inr empty_standings
                        else if s = norway_standings_text then Inr norway_standings
                        else Inl SyntaxError),
     medalStandings_exec = (\<lambda>html. if html = lit ''broken page'' then Some (lit ''[{]'') else None),
     image_matchAll = (\<lambda>html. []),
     tablerow_matchAll = (\<lambda>html. []),
     wikitable_exec = (\<lambda>html. if html = lit ''wiki page'' then Some (lit ''wiki rows'') else None),
     wikirow_matchAll = (\<lambda>tbody. if tbody = lit ''wiki rows''
        then [(lit ''Norway'', lit ''12'', lit ''7'', lit ''7'', lit ''26'')] else []),
     strip_tags = (\<lambda>s. s),
     replace_nbsp = (\<lambda>s. s),
     unicode_toUpperCase = (\<lambda>s. s)\<rparr>"

definition sample_config :: config where
  "sample_config = \<lparr>
     API_URL = lit ''https://site.api.espn.com/apis/v2/sports/olympics/winter/2026/medals'',
     PAGE_URL = lit ''https://www.espn.com/olympics/winter/2026/medals'',
     WIKI_URL = lit ''https://en.wikipedia.org/wiki/2026_Winter_Olympics_medal_table'',
     PAMEDIA_KEY = None\<rparr>"

text \<open>The API answers with no rows; the page cannot be fetched at all; the wiki page is fine.\<close>

definition page_down_world :: world where
  "page_down_world = \<lparr>
     api_fetch = Resolves \<lparr>ok = True, status = 200, body = Inr empty_standings_text\<rparr>,
     api_curl = Inl (ExecError (lit ''not called'')),
     page_fetch = Rejects (NetworkError (lit ''ECONNREFUSED'')),
     page_curl = Inl (ExecError (lit ''curl: (7) Failed to connect'')),
     wiki_fetch = Resolves \<lparr>ok = True, status = 200, body = Inr (lit ''wiki page'')\<rparr>,
     wiki_curl = Inl (ExecError (lit ''not called''))\<rparr>"

text \<open>The API cannot be reached directly with a good status, but curl gets the standings.\<close>

definition api_up_world :: world where
  "api_up_world = \<lparr>
     api_fetch = Resolves \<lparr>ok = False, status = 503, body = Inr (lit ''Service Unavailable'')\<rparr>,
     api_curl = Inr norway_standings_text,
     page_fetch = Rejects (NetworkError (lit ''not called'')),
     page_curl = Inl (ExecError (lit ''not called'')),
     wiki_fetch = Rejects (NetworkError (lit ''not called'')),
     wiki_curl = Inl (ExecError (lit ''not called''))\<rparr>"

text \<open>Two teams: the one with more gold has the lower score.\<close>

definition team_A :: team where
  "team_A = \<lparr>code = Str (lit ''AAA''), name = Str (lit ''A''), gold = Fin 10, silver = Fin 5,
     bronze = Fin 3, total_medals = None, score = Fin (81 / 2)\<rparr>"

definition team_B :: team where
  "team_B = \<lparr>code = Str (lit ''BBB''), name = Str (lit ''B''), gold = Fin 9, silver = Fin 9,
     bronze = Fin 9, total_medals = Some (Fin 27), score = Fin (99 / 2)\<rparr>"

text \<open>
  Three records of which one has a count that is no number, and the teams they
  normalize to.
\<close>

definition bob_entry :: entry where
  "bob_entry = \<lparr>raw_code = Str (lit ''BOB''), raw_name = Str (lit ''Bob''),
     raw_gold = Str (lit ''1''), raw_silver = Str (lit ''0''), raw_bronze = Str (lit ''2''),
     raw_total = Undefined\<rparr>"

definition amy_entry :: entry where
  "amy_entry = \<lparr>raw_code = Str (lit ''AMY''), raw_name = Str (lit ''Amy''),
     raw_gold = Str (lit ''-''), raw_silver = Str (lit ''0''), raw_bronze = Str (lit ''0''),
     raw_total = Undefined\<rparr>"

definition cat_entry :: entry where
  "cat_entry = \<lparr>raw_code = Str (lit ''CAT''), raw_name = Str (lit ''Cat''),
     raw_gold = Str (lit ''3''), raw_silver = Str (lit ''0''), raw_bronze = Str (lit ''1''),
     raw_total = Undefined\<rparr>"

definition bob :: team where
  "bob = \<lparr>code = Str (lit ''BOB''), name = Str (lit ''Bob''), gold = Fin 1, silver = Fin 0,
     bronze = Fin 2, total_medals = Some (Fin 3), score = Fin 5\<rparr>"

definition amy :: team where
  "amy = \<lparr>code = Str (lit ''AMY''), name = Str (lit ''Amy''), gold = NaN, silver = Fin 0,
     bronze = Fin 0, total_medals = Some NaN, score = NaN\<rparr>"

definition cat :: team where
  "cat = \<lparr>code = Str (lit ''CAT''), name = Str (lit ''Cat''), gold = Fin 3, silver = Fin 0,
     bronze = Fin 1, total_medals = Some (Fin 4), score = Fin 10\<rparr>"

section \<open>Facts about rounding\<close>

lemma pow2_pos: "0 < pow2 e"
  by (simp add: pow2_def)
lemma pow2_add: "pow2 (a + b) = pow2 a * pow2 b"
  by (simp add: pow2_def power_int_add)
lemma pow2_diff: "pow2 (a - b) = pow2 a / pow2 b"
  by (simp add: pow2_def power_int_diff)
lemma pow2_mono: "a \<le> b \<Longrightarrow> pow2 a \<le> pow2 b"
  by (simp add: pow2_def power_int_increasing)
lemma pow2_less: "pow2 a < pow2 b \<Longrightarrow> a < b"
  using pow2_mono [of b a] by (cases "a < b") auto
lemma pow2_nat: "0 \<le> e \<Longrightarrow> pow2 e = of_int (2 ^ nat e)"
  by (simp add: pow2_def power_int_def)

lemma bitlen_rat_bounds:
  fixes p :: int assumes "0 < p"
  shows "pow2 (bitlen p - 1) \<le> of_int p" "(of_int p :: rat) < pow2 (bitlen p)"
proof -
  have b: "2 ^ nat (bitlen p - 1) \<le> p" "p < 2 ^ nat (bitlen p)"
    using bitlen_bounds [OF assms] by auto
  have ge1: "1 \<le> bitlen p" using assms bitlen_eq_zero_iff [of p] bitlen_nonneg [of p] by force
  have "(of_int (2 ^ nat (bitlen p - 1)) :: rat) \<le> of_int p"
    using b(1) by (simp only: of_int_le_iff)
  then show "pow2 (bitlen p - 1) \<le> of_int p"
    using ge1 by (simp add: pow2_nat)
  have "(of_int p :: rat) < of_int (2 ^ nat (bitlen p))"
    using b(2) by (simp only: of_int_less_iff)
  then show "(of_int p :: rat) < pow2 (bitlen p)"
    using ge1 by (simp add: pow2_nat)
qed

lemma ilog2_bounds:
  assumes "0 < a"
  shows "pow2 (ilog2 a) \<le> a" "a < pow2 (ilog2 a + 1)"
proof -
  obtain p q where pq: "quotient_of a = (p, q)" by (cases "quotient_of a")
  have q: "0 < q" using pq quotient_of_denom_pos by blast
  have a: "a = of_int p / of_int q" using pq quotient_of_div by blast
  have p: "0 < p" using assms a q by (simp add: zero_less_divide_iff)
  define d where "d = bitlen p - bitlen q"
  note bp = bitlen_rat_bounds [OF p] and bq = bitlen_rat_bounds [OF q]
  have qr: "(0::rat) < of_int q" using q by simp
  have lo: "pow2 (d - 1) \<le> a"
  proof -
    have "pow2 (d - 1) * of_int q \<le> pow2 (d - 1) * pow2 (bitlen q)"
      using bq(2) pow2_pos [of "d - 1"] by (simp add: mult_left_mono less_imp_le)
    also have "\<dots> = pow2 (bitlen p - 1)"
      by (simp add: d_def flip: pow2_add)
    also have "\<dots> \<le> of_int p" by (rule bp(1))
    finally show ?thesis using qr by (simp add: a pos_le_divide_eq)
  qed
  have hi: "a < pow2 (d + 1)"
  proof -
    have "of_int p < pow2 (bitlen p)" by (rule bp(2))
    also have "\<dots> = pow2 (d + 1) * pow2 (bitlen q - 1)"
      by (simp add: d_def flip: pow2_add)
    also have "\<dots> \<le> pow2 (d + 1) * of_int q"
      using bq(1) pow2_pos [of "d + 1"] by (simp add: mult_left_mono less_imp_le)
    finally show ?thesis using qr by (simp add: a pos_divide_less_eq)
  qed
  have e: "ilog2 a = (if pow2 d \<le> a then d else d - 1)"
    by (simp add: ilog2_def pq d_def Let_def)
  show "pow2 (ilog2 a) \<le> a" using lo by (simp add: e)
  show "a < pow2 (ilog2 a + 1)" using hi by (auto simp: e)
qed

lemma round_half_even_int: "round_half_even (of_int n) = n"
  by (simp add: round_half_even_def)

lemma round_half_even_ge1: "1 \<le> m \<Longrightarrow> 1 \<le> round_half_even m"
proof -
  assume "1 \<le> m"
  then have "1 \<le> \<lfloor>m\<rfloor>" by simp
  then show ?thesis by (auto simp: round_half_even_def Let_def)
qed


lemma rnd_exact:
  assumes u: "- 1074 \<le> u" and m: "\<bar>m\<bar> < 2 ^ 53"
    and r: "of_int \<bar>m\<bar> * pow2 u < 2 ^ 1024"
  shows "rnd (of_int m * pow2 u) = Fin (of_int m * pow2 u)"
proof (cases "m = 0")
  case True
  then show ?thesis by (simp add: rnd_def)
next
  case False
  define a :: rat where "a = of_int \<bar>m\<bar> * pow2 u"
  have apos: "0 < a" using False pow2_pos [of u] by (simp add: a_def)
  have aq: "\<bar>of_int m * pow2 u\<bar> = a"
    using pow2_pos [of u] by (simp add: a_def abs_mult)
  define u' where "u' = max (ilog2 a - 52) (- 1074)"
  have "(of_int \<bar>m\<bar> :: rat) < of_int (2 ^ 53)" using m by (simp only: of_int_less_iff)
  then have "(of_int \<bar>m\<bar> :: rat) < pow2 53" by (simp add: pow2_nat)
  then have "a < pow2 53 * pow2 u"
    using pow2_pos [of u] by (simp add: a_def)
  then have "pow2 (ilog2 a) < pow2 (53 + u)"
    using ilog2_bounds(1) [OF apos] by (simp add: pow2_add)
  then have "ilog2 a < 53 + u" by (rule pow2_less)
  then have le: "u' \<le> u" using u by (simp add: u'_def)
  have "a / pow2 u' = of_int \<bar>m\<bar> * pow2 (u - u')"
    by (simp add: a_def pow2_diff)
  also have "\<dots> = of_int (\<bar>m\<bar> * 2 ^ nat (u - u'))"
    using le by (simp add: pow2_nat)
  finally have quot: "a / pow2 u' = of_int (\<bar>m\<bar> * 2 ^ nat (u - u'))" .
  have "round_half_even (a / pow2 u') = \<bar>m\<bar> * 2 ^ nat (u - u')"
    by (simp only: quot round_half_even_int)
  then have "of_int (round_half_even (a / pow2 u')) * pow2 u' = (a / pow2 u') * pow2 u'"
    by (simp only: quot)
  then have rt: "of_int (round_half_even (a / pow2 u')) * pow2 u' = a"
    using pow2_pos [of u'] by simp
  have sgn: "(if 0 < of_int m * pow2 u then a else - a) = of_int m * pow2 u"
    using pow2_pos [of u] by (auto simp: a_def zero_less_mult_iff abs_if not_less)
  have nz: "of_int m * pow2 u \<noteq> 0" using False pow2_pos [of u] by simp
  have "rnd (of_int m * pow2 u) = Fin (if 0 < of_int m * pow2 u then a else - a)"
    unfolding rnd_def aq Let_def u'_def [symmetric] rt
    using nz r by (simp add: a_def)
  then show ?thesis by (simp only: sgn)
qed

lemma rnd_int:
  assumes "\<bar>k\<bar> < 2 ^ 53"
  shows "rnd (of_int k) = Fin (of_int k)"
proof -
  have "(of_int \<bar>k\<bar> :: rat) < of_int (2 ^ 53)" using assms by (simp only: of_int_less_iff)
  then have "(of_int \<bar>k\<bar> :: rat) * pow2 0 < 2 ^ 1024" by (simp add: pow2_def)
  from rnd_exact [of 0 k, OF _ assms this] show ?thesis by (simp add: pow2_def)
qed

lemma rnd_half:
  assumes "\<bar>k\<bar> < 2 ^ 53"
  shows "rnd (of_int k / 2) = Fin (of_int k / 2)"
proof -
  have "(of_int \<bar>k\<bar> :: rat) < of_int (2 ^ 53)" using assms by (simp only: of_int_less_iff)
  then have "(of_int \<bar>k\<bar> :: rat) * pow2 (- 1) < 2 ^ 1024" by (simp add: pow2_def)
  from rnd_exact [of "- 1" k, OF _ assms this] show ?thesis by (simp add: pow2_def)
qed

lemma rnd_grid:
  assumes "rnd q = Fin r"
  shows "\<exists>k::int. r = of_int k * pow2 (- 1074)"
proof (cases "q = 0")
  case True
  with assms have "r = 0" by (simp add: rnd_def)
  then show ?thesis by (intro exI [of _ 0]) simp
next
  case False
  define u where "u = max (ilog2 \<bar>q\<bar> - 52) (- 1074)"
  define n where "n = round_half_even (\<bar>q\<bar> / pow2 u)"
  have u: "- 1074 \<le> u" by (simp add: u_def)
  have r: "r = (if 0 < q then of_int n * pow2 u else - (of_int n * pow2 u))"
    using assms False unfolding rnd_def Let_def u_def [symmetric] n_def [symmetric]
    by (simp split: if_splits)
  have "pow2 u = pow2 (u + 1074) * pow2 (- 1074)" by (simp flip: pow2_add)
  also have "\<dots> = of_int (2 ^ nat (u + 1074)) * pow2 (- 1074)"
    using u by (simp add: pow2_nat)
  finally have pu: "pow2 u = of_int (2 ^ nat (u + 1074)) * pow2 (- 1074)" .
  show ?thesis
  proof (cases "0 < q")
    case True
    then have "r = of_int (n * 2 ^ nat (u + 1074)) * pow2 (- 1074)"
      using r by (subst (asm) pu) simp
    then show ?thesis by blast
  next
    case False
    then have "r = of_int (- n * 2 ^ nat (u + 1074)) * pow2 (- 1074)"
      using r by (subst (asm) pu) simp
    then show ?thesis by blast
  qed
qed

lemma rnd_pos:
  assumes "pow2 (- 1074) \<le> q"
  shows "is_pos (rnd q)"
proof -
  have q: "0 < q" using assms pow2_pos [of "- 1074"] by linarith
  define u where "u = max (ilog2 \<bar>q\<bar> - 52) (- 1074)"
  define n where "n = round_half_even (\<bar>q\<bar> / pow2 u)"
  have "pow2 u \<le> q"
  proof (cases "ilog2 q - 52 \<le> - 1074")
    case True
    then show ?thesis using assms q by (simp add: u_def max_def)
  next
    case False
    then have "u = ilog2 q - 52" using q by (simp add: u_def max_def)
    then have "pow2 u \<le> pow2 (ilog2 q)" by (simp add: pow2_mono)
    then show ?thesis using ilog2_bounds(1) [OF q] by linarith
  qed
  then have "1 \<le> \<bar>q\<bar> / pow2 u" using q pow2_pos [of u] by (simp add: pos_le_divide_eq)
  then have "1 \<le> n" unfolding n_def by (rule round_half_even_ge1)
  then have "0 < (of_int n :: rat) * pow2 u" using pow2_pos [of u] by simp
  then show ?thesis
    using q unfolding rnd_def Let_def u_def [symmetric] n_def [symmetric] by simp
qed

lemma rnd_minus: "rnd (- q) = jneg (rnd q)"
  by (simp add: rnd_def Let_def)

lemma is_neg_jneg: "is_neg (jneg x) = is_pos x"
  by (cases x) auto

lemma rnd_neg:
  assumes "q \<le> - pow2 (- 1074)"
  shows "is_neg (rnd q)"
proof -
  have "is_pos (rnd (- q))" using assms by (intro rnd_pos) simp
  then show ?thesis by (cases "rnd q") (auto simp: rnd_minus)
qed

lemma rnd_numeral:
  assumes "numeral w < (2::int) ^ 53"
  shows "rnd (numeral w) = Fin (numeral w)"
  using rnd_int [of "numeral w"] assms by simp

lemma rnd_numeral_half:
  assumes "numeral w < (2::int) ^ 53"
  shows "rnd (numeral w / 2) = Fin (numeral w / 2)"
  using rnd_half [of "numeral w"] assms by simp

lemma rnd_0:
  "rnd 0 = Fin 0"
  by (simp add: rnd_def)

lemma rnd_1:
  "rnd 1 = Fin 1"
  using rnd_int [of 1] by simp

lemma rnd_neg_numeral:
  assumes "numeral w < (2::int) ^ 53"
  shows "rnd (- numeral w) = Fin (- numeral w)"
  using rnd_int [of "- numeral w"] assms by simp

lemmas rnd_eval = rnd_numeral rnd_numeral_half rnd_0 rnd_1 rnd_neg_numeral

section \<open>The Record Normalizer\<close>

lemma bind_err_Inr_iff:
  "bind_err r f = Inr y \<longleftrightarrow> (\<exists>v. r = Inr v \<and> f v = Inr y)"
  by (cases r) (simp_all add: bind_err_def)

lemma bind_err_simps:
  "bind_err (Inl e) f = Inl e" "bind_err (Inr v) f = f v"
  by (simp_all add: bind_err_def)

lemma withScore_InrD:
  assumes "withScore e = Inr t"
  shows "ToNumber (raw_gold e) = Inr (gold t)"
    and "ToNumber (raw_silver e) = Inr (silver t)"
    and "ToNumber (raw_bronze e) = Inr (bronze t)"
    and "code t = raw_code e" and "name t = raw_name e"
    and "score t = jadd (jadd (jmul (gold t) (Fin 3)) (jmul (silver t) (Fin (3 / 2))))
                        (jmul (bronze t) (Fin 1))"
    and "ToBoolean (raw_total e) \<Longrightarrow>
           \<exists>x. ToNumber (raw_total e) = Inr x \<and> total_medals t = Some x"
    and "\<not> ToBoolean (raw_total e) \<Longrightarrow>
           total_medals t = Some (jadd (jadd (gold t) (silver t)) (bronze t))"
  using assms unfolding withScore_def bind_err_Inr_iff
  by (auto split: if_splits)


lemma lit_Nil_iff:
  "lit s = [] \<longleftrightarrow> s = []"
  by (simp add: lit_def)

text \<open>Strings of digits, as the patterns capture them and the API sends them.\<close>

lemma StringToNumber_decimal:
  assumes "trim s = t" "t \<noteq> []" "radix_literal t = None" "split_sign t = (False, u)"
    and "u \<noteq> lit ''Infinity''" "decimal_value u = Some q"
  shows "StringToNumber s = rnd q"
  using assms by (simp add: StringToNumber_def)

lemma StringToNumber_12:
  "StringToNumber (lit ''12'') = Fin 12"
proof -
  have "StringToNumber (lit ''12'') = rnd 12"
    by (rule StringToNumber_decimal [where t = "lit ''12''" and u = "lit ''12''"];
        code_simp)
  then show ?thesis by (simp add: rnd_eval)
qed

lemma StringToNumber_7:
  "StringToNumber (lit ''7'') = Fin 7"
proof -
  have "StringToNumber (lit ''7'') = rnd 7"
    by (rule StringToNumber_decimal [where t = "lit ''7''" and u = "lit ''7''"];
        code_simp)
  then show ?thesis by (simp add: rnd_eval)
qed

lemma StringToNumber_26:
  "StringToNumber (lit ''26'') = Fin 26"
proof -
  have "StringToNumber (lit ''26'') = rnd 26"
    by (rule StringToNumber_decimal [where t = "lit ''26''" and u = "lit ''26''"];
        code_simp)
  then show ?thesis by (simp add: rnd_eval)
qed

lemma StringToNumber_1:
  "StringToNumber (lit ''1'') = Fin 1"
proof -
  have "StringToNumber (lit ''1'') = rnd 1"
    by (rule StringToNumber_decimal [where t = "lit ''1''" and u = "lit ''1''"];
        code_simp)
  then show ?thesis by (simp add: rnd_eval)
qed

lemma StringToNumber_0:
  "StringToNumber (lit ''0'') = Fin 0"
proof -
  have "StringToNumber (lit ''0'') = rnd 0"
    by (rule StringToNumber_decimal [where t = "lit ''0''" and u = "lit ''0''"];
        code_simp)
  then show ?thesis by (simp add: rnd_eval)
qed

lemma StringToNumber_2:
  "StringToNumber (lit ''2'') = Fin 2"
proof -
  have "StringToNumber (lit ''2'') = rnd 2"
    by (rule StringToNumber_decimal [where t = "lit ''2''" and u = "lit ''2''"];
        code_simp)
  then show ?thesis by (simp add: rnd_eval)
qed

lemma StringToNumber_3:
  "StringToNumber (lit ''3'') = Fin 3"
proof -
  have "StringToNumber (lit ''3'') = rnd 3"
    by (rule StringToNumber_decimal [where t = "lit ''3''" and u = "lit ''3''"];
        code_simp)
  then show ?thesis by (simp add: rnd_eval)
qed

lemma StringToNumber_empty:
  "StringToNumber [] = Fin 0"
  by (simp add: StringToNumber_def trim_def)

lemma StringToNumber_dash:
  "StringToNumber (lit ''-'') = NaN"
  by code_simp

lemmas digits_eval = StringToNumber_12 StringToNumber_7 StringToNumber_26
  StringToNumber_1 StringToNumber_0 StringToNumber_2 StringToNumber_3
  StringToNumber_empty StringToNumber_dash lit_Nil_iff

lemma withScore_norway:
  "withScore \<lparr>raw_code = Str (lit ''NOR''), raw_name = Str (lit ''Norway''),
       raw_gold = Str (lit ''12''), raw_silver = Str (lit ''7''),
       raw_bronze = Str (lit ''7''), raw_total = Undefined\<rparr>
   = Inr \<lparr>code = Str (lit ''NOR''), name = Str (lit ''Norway''), gold = Fin 12,
       silver = Fin 7, bronze = Fin 7, total_medals = Some (Fin 26),
       score = Fin (107 / 2)\<rparr>"
  by (simp add: withScore_def bind_err_simps digits_eval rnd_eval)

text \<open>
  Claim C2. Whenever the Normalizer produces a Team, its three counts are the Number
  coercions of the raw counts and its score is \<^verbatim>\<open>gold * 3 + silver * 1.5 + bronze * 1\<close>
  of those counts, in the arithmetic of Numbers.
\<close>

theorem withScore_score:
  assumes "withScore e = Inr t"
  shows "ToNumber (raw_gold e) = Inr (gold t) \<and> ToNumber (raw_silver e) = Inr (silver t)
     \<and> ToNumber (raw_bronze e) = Inr (bronze t)
     \<and> score t = jadd (jadd (jmul (gold t) (Fin 3)) (jmul (silver t) (Fin (3 / 2))))
                       (jmul (bronze t) (Fin 1))"
  using withScore_InrD [OF assms] by simp

theorem withScore_score_witness:
  "withScore \<lparr>raw_code = Str (lit ''NOR''), raw_name = Str (lit ''Norway''),
       raw_gold = Str (lit ''12''), raw_silver = Str (lit ''7''),
       raw_bronze = Str (lit ''7''), raw_total = Undefined\<rparr>
     = Inr \<lparr>code = Str (lit ''NOR''), name = Str (lit ''Norway''), gold = Fin 12,
       silver = Fin 7, bronze = Fin 7, total_medals = Some (Fin 26),
       score = Fin (107 / 2)\<rparr>
   \<and> ToNumber (Str (lit ''12'')) = Inr (Fin 12) \<and> ToNumber (Str (lit ''7'')) = Inr (Fin 7)
   \<and> Fin (107 / 2) = jadd (jadd (jmul (Fin 12) (Fin 3)) (jmul (Fin 7) (Fin (3 / 2))))
                           (jmul (Fin 7) (Fin 1))"
  using withScore_score [OF withScore_norway] withScore_norway by simp

text \<open>
  Claim C4, as stated, fails: a total that is present but is the number 0 is not kept.
  The record \<^verbatim>\<open>{gold: "1", silver: "0", bronze: "0", total: 0}\<close> has the coerced total
  0 and comes out with total 1.
\<close>

theorem withScore_total_verbatim_counterexample:
  "withScore \<lparr>raw_code = Str (lit ''NOR''), raw_name = Str (lit ''Norway''),
       raw_gold = Str (lit ''1''), raw_silver = Str (lit ''0''),
       raw_bronze = Str (lit ''0''), raw_total = Num (Fin 0)\<rparr>
     = Inr \<lparr>code = Str (lit ''NOR''), name = Str (lit ''Norway''), gold = Fin 1,
       silver = Fin 0, bronze = Fin 0, total_medals = Some (Fin 1),
       score = Fin 3\<rparr>
   \<and> ToNumber (Num (Fin 0)) = Inr (Fin 0) \<and> Some (Fin 1) \<noteq> Some (Fin (0::rat))"
  by (simp add: withScore_def bind_err_simps digits_eval rnd_eval)

text \<open>
  Claim C4, amended. When the raw total is present and truthy, the Team's total is the
  Number coercion of that raw total, whatever the three counts add up to.
\<close>

theorem withScore_total_verbatim:
  assumes "withScore e = Inr t" and "ToBoolean (raw_total e)"
  shows "\<exists>x. ToNumber (raw_total e) = Inr x \<and> total_medals t = Some x"
  using withScore_InrD(7) [OF assms] .

theorem withScore_total_verbatim_witness:
  "withScore \<lparr>raw_code = Str (lit ''NOR''), raw_name = Str (lit ''Norway''),
       raw_gold = Str (lit ''12''), raw_silver = Str (lit ''7''),
       raw_bronze = Str (lit ''7''), raw_total = Str (lit ''1'')\<rparr>
     = Inr \<lparr>code = Str (lit ''NOR''), name = Str (lit ''Norway''), gold = Fin 12,
       silver = Fin 7, bronze = Fin 7, total_medals = Some (Fin 1),
       score = Fin (107 / 2)\<rparr>
   \<and> ToBoolean (Str (lit ''1''))
   \<and> (\<exists>x. ToNumber (Str (lit ''1'')) = Inr x \<and> Some (Fin 1) = Some x)"
proof -
  have w: "withScore \<lparr>raw_code = Str (lit ''NOR''), raw_name = Str (lit ''Norway''),
       raw_gold = Str (lit ''12''), raw_silver = Str (lit ''7''),
       raw_bronze = Str (lit ''7''), raw_total = Str (lit ''1'')\<rparr>
     = Inr \<lparr>code = Str (lit ''NOR''), name = Str (lit ''Norway''), gold = Fin 12,
       silver = Fin 7, bronze = Fin 7, total_medals = Some (Fin 1),
       score = Fin (107 / 2)\<rparr>"
    by (simp add: withScore_def bind_err_simps digits_eval rnd_eval)
  have b: "ToBoolean (Str (lit ''1''))"
    by (simp add: lit_Nil_iff)
  from withScore_total_verbatim [OF w] w b show ?thesis by (simp add: lit_Nil_iff)
qed





text \<open>
  On whole counts of realistic size the arithmetic of Numbers does not round: the
  score is the exact value of \<open>3 g + 3/2 s + b\<close> and the computed total the exact sum.
\<close>

lemma score_exact_on_counts:
  fixes g s b :: int
  assumes "0 \<le> g" "g < 2 ^ 49" "0 \<le> s" "s < 2 ^ 49" "0 \<le> b" "b < 2 ^ 49"
  shows "jadd (jadd (jmul (Fin (of_int g)) (Fin 3)) (jmul (Fin (of_int s)) (Fin (3 / 2))))
              (jmul (Fin (of_int b)) (Fin 1))
         = Fin (of_int g * 3 + of_int s * 3 / 2 + of_int b)"
    and "jadd (jadd (Fin (of_int g)) (Fin (of_int s))) (Fin (of_int b))
         = Fin (of_int g + of_int s + of_int b)"
proof -
  have bg: "\<bar>3 * g\<bar> < 2 ^ 53" "\<bar>3 * s\<bar> < 2 ^ 53" "\<bar>b\<bar> < 2 ^ 53"
    "\<bar>6 * g + 3 * s\<bar> < 2 ^ 53" "\<bar>6 * g + 3 * s + 2 * b\<bar> < 2 ^ 53"
    "\<bar>g + s\<bar> < 2 ^ 53" "\<bar>g + s + b\<bar> < 2 ^ 53"
    using assms by simp_all
  have e0: "(of_int g :: rat) * 3 = of_int (3 * g)"
    "(of_int s :: rat) * (3 / 2) = of_int (3 * s) / 2"
    "(of_int b :: rat) * 1 = of_int b"
    by simp_all
  have e1: "(of_int (3 * g) :: rat) + of_int (3 * s) / 2 = of_int (6 * g + 3 * s) / 2"
    by simp
  have e2: "(of_int (6 * g + 3 * s) :: rat) / 2 + of_int b = of_int (6 * g + 3 * s + 2 * b) / 2"
    by simp
  have e3: "(of_int (6 * g + 3 * s + 2 * b) :: rat) / 2 = of_int g * 3 + of_int s * 3 / 2 + of_int b"
    by simp
  have "jadd (jadd (jmul (Fin (of_int g)) (Fin 3)) (jmul (Fin (of_int s)) (Fin (3 / 2))))
              (jmul (Fin (of_int b)) (Fin 1))
        = Fin (of_int (6 * g + 3 * s + 2 * b) / 2)"
    by (simp only: jmul.simps jadd.simps e0 rnd_int [OF bg(1)] rnd_half [OF bg(2)]
        rnd_int [OF bg(3)] e1 rnd_half [OF bg(4)] e2 rnd_half [OF bg(5)])
  then show "jadd (jadd (jmul (Fin (of_int g)) (Fin 3)) (jmul (Fin (of_int s)) (Fin (3 / 2))))
              (jmul (Fin (of_int b)) (Fin 1))
         = Fin (of_int g * 3 + of_int s * 3 / 2 + of_int b)"
    by (simp only: e3)
  have f1: "(of_int g :: rat) + of_int s = of_int (g + s)"
    "(of_int (g + s) :: rat) + of_int b = of_int (g + s + b)"
    by simp_all
  have "jadd (jadd (Fin (of_int g)) (Fin (of_int s))) (Fin (of_int b))
        = Fin (of_int (g + s + b))"
    by (simp only: jadd.simps f1 rnd_int [OF bg(6)] rnd_int [OF bg(7)])
  then show "jadd (jadd (Fin (of_int g)) (Fin (of_int s))) (Fin (of_int b))
         = Fin (of_int g + of_int s + of_int b)"
    by simp
qed

section \<open>The sort keeps the elements\<close>

text \<open>Whatever the comparator answers.\<close>

lemma run_split_append:
  "run_split d c prev xs = (r, rest) \<Longrightarrow> xs = r @ rest"
  by (induction xs arbitrary: prev r rest) (auto split: if_splits prod.splits)

lemma mset_count_and_make_run:
  "count_and_make_run c xs = (run, rest) \<Longrightarrow> mset run + mset rest = mset xs"
proof (induction c xs rule: count_and_make_run.induct)
  case (1 c x0 x1 xs)
  obtain r rest' where s: "run_split (is_neg (c x1 x0)) c x1 xs = (r, rest')"
    by (cases "run_split (is_neg (c x1 x0)) c x1 xs")
  have "xs = r @ rest'" using run_split_append [OF s] .
  then show ?case using 1 s by (auto simp: Let_def split: if_splits)
qed simp_all

lemma mset_bin_insert:
  "mset (bin_insert c a p) = add_mset p (mset a)"
proof -
  have "mset (take k a @ p # drop k a) = add_mset p (mset a)" for k
    by (metis append_take_drop_id mset_append mset.simps(2) union_mset_add_mset_right)
  then show ?thesis by (simp add: bin_insert_def Let_def)
qed

lemma mset_foldl_bin_insert:
  "mset (foldl (bin_insert c) acc xs) = mset acc + mset xs"
  by (induction xs arbitrary: acc) (auto simp: mset_bin_insert)

lemma mset_array_sort:
  "mset (array_sort c xs) = mset xs"
proof -
  obtain run rest where r: "count_and_make_run c xs = (run, rest)"
    by (cases "count_and_make_run c xs")
  then show ?thesis
    using mset_count_and_make_run [OF r] by (simp add: array_sort_def mset_foldl_bin_insert)
qed

lemma mset_sortTeams:
  "mset (sortTeams ts) = mset ts"
  by (simp add: sortTeams_def mset_array_sort)

lemma sortTeams_Nil_iff:
  "sortTeams ts = [] \<longleftrightarrow> ts = []"
  using mset_sortTeams [of ts] by (metis mset_zero_iff)

lemma sortTeams_single:
  "sortTeams [t] = [t]"
  by (simp add: sortTeams_def array_sort_def)


section \<open>The extractors\<close>

lemma map_err_total:
  assumes "\<And>x. x \<in> set xs \<Longrightarrow> \<exists>y. f x = Inr y"
  shows "\<exists>ys. map_err f xs = Inr ys"
  using assms
proof (induction xs)
  case Nil
  show ?case by simp
next
  case (Cons x xs)
  then obtain y ys where "f x = Inr y" "map_err f xs = Inr ys"
    by (metis list.set_intros(1) list.set_intros(2))
  then show ?case by (simp add: bind_err_simps)
qed

lemma withScore_strings:
  assumes "\<exists>s. raw_gold e = Str s" "\<exists>s. raw_silver e = Str s" "\<exists>s. raw_bronze e = Str s"
    and "raw_total e = Undefined \<or> (\<exists>s. raw_total e = Str s)"
  shows "\<exists>t. withScore e = Inr t"
  using assms by (auto simp: withScore_def bind_err_simps)

lemma image_team_total:
  "\<exists>t. image_team m = Inr t"
  unfolding image_team_def by (cases m) (simp add: withScore_strings)

lemma tablerow_team_total:
  "\<exists>t. tablerow_team m = Inr t"
  unfolding tablerow_team_def by (cases m) (simp add: withScore_strings)

lemma wikirow_team_total:
  "\<exists>t. wikirow_team B m = Inr t"
  unfolding wikirow_team_def by (cases m) (simp add: withScore_strings Let_def)

lemma pattern_teams_total:
  "\<exists>teams. pattern_teams B html = Inr teams"
proof -
  obtain ts where a: "map_err image_team (image_matchAll B html) = Inr ts"
    using map_err_total [of _ image_team] image_team_total by blast
  obtain us where b: "map_err tablerow_team (tablerow_matchAll B html) = Inr us"
    using map_err_total [of _ tablerow_team] tablerow_team_total by blast
  show ?thesis by (simp add: pattern_teams_def a b bind_err_simps)
qed

lemma parseFromHtml_total:
  "\<exists>teams. parseFromHtml B html = Inr teams"
  using pattern_teams_total [of B html]
  by (auto simp: parseFromHtml_def split: option.splits sum.splits)

lemma parseWikipedia_total:
  "\<exists>teams. parseWikipedia B html = Inr teams"
proof (cases "wikitable_exec B html")
  case None
  then show ?thesis by (simp add: parseWikipedia_def)
next
  case (Some tbody)
  obtain ts where "map_err (wikirow_team B) (wikirow_matchAll B tbody) = Inr ts"
    using map_err_total [of _ "wikirow_team B"] wikirow_team_total by blast
  then show ?thesis by (simp add: parseWikipedia_def Some bind_err_simps)
qed

lemma upper_Nor3:
  "toUpperCase B (lit ''Nor'') = lit ''NOR''"
  by code_simp

lemma take3_Norway:
  "take 3 (lit ''Norway'') = lit ''Nor''"
  by (simp add: lit_def)

lemma row_to_team_norway:
  "row_to_team B norway_row = Inr norway"
  by (simp add: norway_row_def norway_def row_to_team_def member_def nth_or_undefined_def
      bind_err_simps take3_Norway lit_Nil_iff upper_Nor3 withScore_norway)

text \<open>
  Claim C6, as stated, fails on the score: the row
  \<^verbatim>\<open>{cells: ["Norway", "12", "7", "7"]}\<close> does not come out with score 58.5.
\<close>

theorem norway_scenario_counterexample:
  "row_to_team sample_builtins
     (Obj [(lit ''cells'',
       Arr [Str (lit ''Norway''), Str (lit ''12''), Str (lit ''7''), Str (lit ''7'')])])
   \<noteq> Inr \<lparr>code = Str (lit ''NOR''), name = Str (lit ''Norway''), gold = Fin 12,
       silver = Fin 7, bronze = Fin 7, total_medals = Some (Fin 26),
       score = Fin (117 / 2)\<rparr>"
  using row_to_team_norway [of sample_builtins] by (simp add: norway_row_def norway_def)

text \<open>
  Claim C6, amended. The row \<^verbatim>\<open>{cells: ["Norway", "12", "7", "7"]}\<close>, with no total,
  is normalized to exactly the Team with code NOR, name Norway, gold 12, silver 7,
  bronze 7, total 26 and score 53.5.
\<close>

theorem norway_scenario:
  "row_to_team B
     (Obj [(lit ''cells'',
       Arr [Str (lit ''Norway''), Str (lit ''12''), Str (lit ''7''), Str (lit ''7'')])])
   = Inr \<lparr>code = Str (lit ''NOR''), name = Str (lit ''Norway''), gold = Fin 12,
       silver = Fin 7, bronze = Fin 7, total_medals = Some (Fin 26),
       score = Fin (107 / 2)\<rparr>"
  using row_to_team_norway [of B] by (simp add: norway_row_def norway_def)

lemma api_teams_not_empty:
  "api_teams B data \<noteq> Inr []"
  by (auto simp: api_teams_def bind_err_def sortTeams_Nil_iff split: sum.splits)

lemma api_teams_empty_standings:
  "api_teams B empty_standings = Inl (Error (lit ''API returned no medal entries''))"
  by (simp add: empty_standings_def api_teams_def data_rows_def standings_rows_def
      opt_member_def opt_index0_def bind_err_simps)

lemma fetchApiJson_not_empty:
  "fst (fetchApiJson B cfg W) \<noteq> Inr []"
  using api_teams_not_empty
  by (auto simp: fetchApiJson_def split: prod.splits sum.splits)

text \<open>
  Claim C7. The Structured-API Extractor never returns an empty collection: whenever
  the rows of the fetched data map to no team it throws
  \<^verbatim>\<open>API returned no medal entries\<close>, and it does so on
  \<^verbatim>\<open>{medalStandings: [{rows: []}]}\<close>.
\<close>

theorem fetchApiJson_empty_throws:
  "fst (fetchApiJson B cfg W) \<noteq> Inr []
   \<and> (\<forall>data tr.
        httpGetJson B (api_fetch W) (api_curl W) (API_URL cfg) (api_headers cfg)
          = (Inr data, tr)
        \<and> rows_map B (data_rows data) = Inr []
        \<longrightarrow> fetchApiJson B cfg W
            = (Inl (Error (lit ''API returned no medal entries'')), tr))
   \<and> api_teams B (Obj [(lit ''medalStandings'', Arr [Obj [(lit ''rows'', Arr [])]])])
        = Inl (Error (lit ''API returned no medal entries''))"
proof (intro conjI allI impI)
  show "fst (fetchApiJson B cfg W) \<noteq> Inr []"
    by (rule fetchApiJson_not_empty)
next
  fix data tr
  assume "httpGetJson B (api_fetch W) (api_curl W) (API_URL cfg) (api_headers cfg)
          = (Inr data, tr)
        \<and> rows_map B (data_rows data) = Inr []"
  then show "fetchApiJson B cfg W = (Inl (Error (lit ''API returned no medal entries'')), tr)"
    by (simp add: fetchApiJson_def api_teams_def bind_err_simps)
next
  show "api_teams B (Obj [(lit ''medalStandings'', Arr [Obj [(lit ''rows'', Arr [])]])])
        = Inl (Error (lit ''API returned no medal entries''))"
    using api_teams_empty_standings by (simp add: empty_standings_def)
qed

lemma sample_api_data:
  "httpGetJson sample_builtins (api_fetch page_down_world) (api_curl page_down_world)
     (API_URL sample_config) (api_headers sample_config)
   = (Inr empty_standings, [Fetch (API_URL sample_config) (api_headers sample_config)])"
  by (simp add: httpGetJson_def direct_json_def page_down_world_def sample_builtins_def
      bind_err_simps)

lemma empty_standings_rows:
  "rows_map B (data_rows empty_standings) = Inr []"
  by (simp add: empty_standings_def data_rows_def standings_rows_def
      opt_member_def opt_index0_def)

theorem fetchApiJson_empty_throws_witness:
  "httpGetJson sample_builtins (api_fetch page_down_world) (api_curl page_down_world)
     (API_URL sample_config) (api_headers sample_config)
   = (Inr empty_standings, [Fetch (API_URL sample_config) (api_headers sample_config)])
   \<and> rows_map sample_builtins (data_rows empty_standings) = Inr []
   \<and> fetchApiJson sample_builtins sample_config page_down_world
     = (Inl (Error (lit ''API returned no medal entries'')),
        [Fetch (API_URL sample_config) (api_headers sample_config)])"
  using fetchApiJson_empty_throws [of sample_builtins sample_config page_down_world]
    sample_api_data empty_standings_rows [of sample_builtins]
  by simp

text \<open>
  Claim C9. Both page extractors return a sequence of teams on every input text and
  whatever \<^verbatim>\<open>JSON.parse\<close> and the patterns find in it: a throw inside the embedded-JSON
  strategy is caught, and nothing else in them can throw.
\<close>

theorem page_extractors_total:
  "(\<exists>teams. parseFromHtml B html = Inr teams) \<and> (\<exists>teams. parseWikipedia B html = Inr teams)"
  using parseFromHtml_total parseWikipedia_total by blast

lemma broken_page_throws_inside:
  "embedded_json_teams sample_builtins (lit ''[{]'') = Inl SyntaxError"
  by (simp add: embedded_json_teams_def sample_builtins_def empty_standings_text_def
      norway_standings_text_def bind_err_simps lit_def cu_def)

lemma broken_page_empty:
  "parseFromHtml sample_builtins (lit ''broken page'') = Inr []"
proof -
  have m: "medalStandings_exec sample_builtins (lit ''broken page'') = Some (lit ''[{]'')"
    by (simp add: sample_builtins_def)
  have p: "pattern_teams sample_builtins (lit ''broken page'') = Inr []"
    by (simp add: sample_builtins_def pattern_teams_def bind_err_simps sortTeams_def
        array_sort_def)
  show ?thesis
    by (simp add: parseFromHtml_def m p broken_page_throws_inside)
qed

theorem page_extractors_total_witness:
  "embedded_json_teams sample_builtins (lit ''[{]'') = Inl SyntaxError
   \<and> parseFromHtml sample_builtins (lit ''broken page'') = Inr []
   \<and> (\<exists>teams. parseWikipedia sample_builtins (lit ''broken page'') = Inr teams)"
  using page_extractors_total [of sample_builtins "lit ''broken page''"]
    broken_page_throws_inside broken_page_empty
  by simp

section \<open>The Transport Layer\<close>

lemma decimal_503:
  "decimal 503 = lit ''503''"
  by code_simp

lemma direct_json_fails:
  "direct_json B fr = Inl err \<longleftrightarrow>
     fr = Rejects err
     \<or> (\<exists>res. fr = Resolves res \<and> \<not> ok res
            \<and> err = Error (lit ''HTTP '' @ decimal (status res)))
     \<or> (\<exists>res. fr = Resolves res \<and> ok res \<and> bind_err (body res) (JSON_parse B) = Inl err)"
  by (cases fr) (auto simp: direct_json_def)

lemma direct_text_fails:
  "direct_text fr = Inl err \<longleftrightarrow>
     fr = Rejects err
     \<or> (\<exists>res. fr = Resolves res \<and> \<not> ok res
            \<and> err = Error (lit ''HTTP '' @ decimal (status res)))
     \<or> (\<exists>res. fr = Resolves res \<and> ok res \<and> body res = Inl err)"
  by (cases fr) (auto simp: direct_text_def)

text \<open>
  Claim C8. In both transport operations, when the direct path fails with an error
  (the fetch rejects, the status is not a success, or the body cannot be read or, for
  JSON, parsed) and the curl path fails as well (curl itself or, for JSON, parsing its
  output), the error thrown to the caller is the error of the direct path; both
  requests were issued, for the same URL.
\<close>

theorem transport_original_error:
  "(direct_json B fr = Inl err \<and> bind_err cr (JSON_parse B) = Inl curlErr
      \<longrightarrow> httpGetJson B fr cr url hs
          = (Inl err, [Fetch url hs, ExecFile (lit ''curl'') (curl_json_args url hs)]))
   \<and> (direct_text fr = Inl err \<and> cr = Inl curlErr
      \<longrightarrow> httpGetText fr cr url hs
          = (Inl err, [Fetch url hs, ExecFile (lit ''curl'') (curl_text_args url hs)]))
   \<and> (direct_json B fr = Inl err \<longleftrightarrow>
        fr = Rejects err
        \<or> (\<exists>res. fr = Resolves res \<and> \<not> ok res
               \<and> err = Error (lit ''HTTP '' @ decimal (status res)))
        \<or> (\<exists>res. fr = Resolves res \<and> ok res
               \<and> bind_err (body res) (JSON_parse B) = Inl err))
   \<and> (direct_text fr = Inl err \<longleftrightarrow>
        fr = Rejects err
        \<or> (\<exists>res. fr = Resolves res \<and> \<not> ok res
               \<and> err = Error (lit ''HTTP '' @ decimal (status res)))
        \<or> (\<exists>res. fr = Resolves res \<and> ok res \<and> body res = Inl err))"
proof (intro conjI impI)
  assume "direct_json B fr = Inl err \<and> bind_err cr (JSON_parse B) = Inl curlErr"
  then show "httpGetJson B fr cr url hs
      = (Inl err, [Fetch url hs, ExecFile (lit ''curl'') (curl_json_args url hs)])"
    by (simp add: httpGetJson_def)
next
  assume "direct_text fr = Inl err \<and> cr = Inl curlErr"
  then show "httpGetText fr cr url hs
      = (Inl err, [Fetch url hs, ExecFile (lit ''curl'') (curl_text_args url hs)])"
    by (simp add: httpGetText_def)
next
  show "direct_json B fr = Inl err \<longleftrightarrow>
        fr = Rejects err
        \<or> (\<exists>res. fr = Resolves res \<and> \<not> ok res
               \<and> err = Error (lit ''HTTP '' @ decimal (status res)))
        \<or> (\<exists>res. fr = Resolves res \<and> ok res
               \<and> bind_err (body res) (JSON_parse B) = Inl err)"
    by (rule direct_json_fails)
next
  show "direct_text fr = Inl err \<longleftrightarrow>
        fr = Rejects err
        \<or> (\<exists>res. fr = Resolves res \<and> \<not> ok res
               \<and> err = Error (lit ''HTTP '' @ decimal (status res)))
        \<or> (\<exists>res. fr = Resolves res \<and> ok res \<and> body res = Inl err)"
    by (rule direct_text_fails)
qed

theorem transport_original_error_witness:
  "direct_json sample_builtins (Rejects (NetworkError (lit ''ECONNREFUSED'')))
     = Inl (NetworkError (lit ''ECONNREFUSED''))
   \<and> bind_err (Inr (lit ''<html>'')) (JSON_parse sample_builtins) = Inl SyntaxError
   \<and> fst (httpGetJson sample_builtins (Rejects (NetworkError (lit ''ECONNREFUSED'')))
          (Inr (lit ''<html>'')) (lit ''u'') [])
     = Inl (NetworkError (lit ''ECONNREFUSED''))
   \<and> direct_text (Resolves \<lparr>ok = False, status = 503, body = Inr (lit ''busy'')\<rparr>)
     = Inl (Error (lit ''HTTP 503''))
   \<and> fst (httpGetText (Resolves \<lparr>ok = False, status = 503, body = Inr (lit ''busy'')\<rparr>)
          (Inl (ExecError (lit ''spawn curl ENOENT''))) (lit ''u'') [])
     = Inl (Error (lit ''HTTP 503''))"
proof -
  have a: "direct_json sample_builtins (Rejects (NetworkError (lit ''ECONNREFUSED'')))
     = Inl (NetworkError (lit ''ECONNREFUSED''))"
    by (simp add: direct_json_def)
  have b: "bind_err (Inr (lit ''<html>'')) (JSON_parse sample_builtins) = Inl SyntaxError"
    by (simp add: bind_err_simps sample_builtins_def empty_standings_text_def
        norway_standings_text_def lit_def cu_def)
  have c: "direct_text (Resolves \<lparr>ok = False, status = 503, body = Inr (lit ''busy'')\<rparr>)
     = Inl (Error (lit ''HTTP 503''))"
    by (simp add: direct_text_def decimal_503 lit_def)
  from transport_original_error [of sample_builtins
      "Rejects (NetworkError (lit ''ECONNREFUSED''))"
      "NetworkError (lit ''ECONNREFUSED'')" "Inr (lit ''<html>'')" SyntaxError "lit ''u''" "[]"] a b
  have "httpGetJson sample_builtins (Rejects (NetworkError (lit ''ECONNREFUSED'')))
          (Inr (lit ''<html>'')) (lit ''u'') []
        = (Inl (NetworkError (lit ''ECONNREFUSED'')),
           [Fetch (lit ''u'') [], ExecFile (lit ''curl'') (curl_json_args (lit ''u'') [])])"
    by blast
  then have d: "fst (httpGetJson sample_builtins
          (Rejects (NetworkError (lit ''ECONNREFUSED'')))
          (Inr (lit ''<html>'')) (lit ''u'') [])
     = Inl (NetworkError (lit ''ECONNREFUSED''))"
    by simp
  from transport_original_error [of sample_builtins
      "Resolves \<lparr>ok = False, status = 503, body = Inr (lit ''busy'')\<rparr>"
      "Error (lit ''HTTP 503'')" "Inl (ExecError (lit ''spawn curl ENOENT''))"
      "ExecError (lit ''spawn curl ENOENT'')" "lit ''u''" "[]"] c
  have "httpGetText (Resolves \<lparr>ok = False, status = 503, body = Inr (lit ''busy'')\<rparr>)
          (Inl (ExecError (lit ''spawn curl ENOENT''))) (lit ''u'') []
        = (Inl (Error (lit ''HTTP 503'')),
           [Fetch (lit ''u'') [], ExecFile (lit ''curl'') (curl_text_args (lit ''u'') [])])"
    by blast
  then have e: "fst (httpGetText
          (Resolves \<lparr>ok = False, status = 503, body = Inr (lit ''busy'')\<rparr>)
          (Inl (ExecError (lit ''spawn curl ENOENT''))) (lit ''u'') [])
     = Inl (Error (lit ''HTTP 503''))"
    by simp
  from a b c d e show ?thesis by blast
qed

section \<open>The Fallback Orchestrator\<close>

lemma throws_simps:
  "throws (Inl e) = True" "throws (Inr v) = False"
  by (simp_all add: throws_def)

lemma page_tier_throws:
  "throws (page_tier B cfg W) = throws (page_html cfg W)"
proof (cases "page_html cfg W")
  case (Inl e)
  then show ?thesis by (simp add: page_tier_def bind_err_simps throws_simps)
next
  case (Inr html)
  obtain teams where "parseFromHtml B html = Inr teams"
    using parseFromHtml_total by blast
  with Inr show ?thesis by (simp add: page_tier_def bind_err_simps throws_simps)
qed

lemma wiki_tier_throws:
  "throws (wiki_tier B cfg W) = throws (wiki_html cfg W)"
proof (cases "wiki_html cfg W")
  case (Inl e)
  then show ?thesis by (simp add: wiki_tier_def bind_err_simps throws_simps)
next
  case (Inr html)
  obtain teams where "parseWikipedia B html = Inr teams"
    using parseWikipedia_total by blast
  with Inr show ?thesis by (simp add: wiki_tier_def bind_err_simps throws_simps)
qed

lemma wiki_step_tier:
  "wiki_step B cfg W = (wiki_tier B cfg W, wiki_requests cfg W)"
  by (simp add: wiki_step_def wiki_tier_def wiki_html_def wiki_requests_def bind_err_def
      split: prod.splits sum.splits)

lemma html_fallback_tiers:
  "html_fallback B cfg W =
     (case page_tier B cfg W of
        Inl e \<Rightarrow> (Inl e, page_requests cfg W)
      | Inr teams \<Rightarrow>
          if teams \<noteq> [] then (Inr teams, page_requests cfg W)
          else (case wiki_tier B cfg W of
                  Inl e \<Rightarrow> Inl e
                | Inr teams' \<Rightarrow> if teams' = [] then Inl terminal_error else Inr teams',
                page_requests cfg W @ wiki_requests cfg W))"
  by (simp add: html_fallback_def wiki_step_tier page_tier_def page_html_def
      page_requests_def bind_err_def split: prod.splits sum.splits)

lemma fetchMedals_tiers:
  "fetchMedals B cfg W =
     (case api_tier B cfg W of
        Inr teams \<Rightarrow> (Inr teams, api_requests B cfg W)
      | Inl apiErr \<Rightarrow>
          (fst (html_fallback B cfg W), api_requests B cfg W @ snd (html_fallback B cfg W)))"
  by (simp add: fetchMedals_def api_tier_def api_requests_def split: prod.splits sum.splits)

lemma api_requests_only_api:
  "api_requests B cfg W = [Fetch (API_URL cfg) (api_headers cfg)]
   \<or> api_requests B cfg W
       = [Fetch (API_URL cfg) (api_headers cfg),
          ExecFile (lit ''curl'') (curl_json_args (API_URL cfg) (api_headers cfg))]"
  by (simp add: api_requests_def fetchApiJson_def httpGetJson_def split: sum.splits)

text \<open>
  What \<^verbatim>\<open>fetchMedals\<close> does, tier by tier. When the API tier yields teams they are not
  empty and are returned at once; the requests issued are the API tier's, which are
  the fetch of the API address and at most the curl call for the same address, so no
  page is requested.
\<close>

lemma fetchMedals_api_success:
  assumes "api_tier B cfg W = Inr teams"
  shows "teams \<noteq> []"
    and "fetchMedals B cfg W = (Inr teams, api_requests B cfg W)"
    and "snd (fetchMedals B cfg W) = [Fetch (API_URL cfg) (api_headers cfg)]
         \<or> snd (fetchMedals B cfg W)
             = [Fetch (API_URL cfg) (api_headers cfg),
                ExecFile (lit ''curl'') (curl_json_args (API_URL cfg) (api_headers cfg))]"
proof -
  show "teams \<noteq> []"
    using assms fetchApiJson_not_empty [of B cfg W] by (auto simp: api_tier_def)
  show r: "fetchMedals B cfg W = (Inr teams, api_requests B cfg W)"
    using assms by (simp add: fetchMedals_tiers)
  show "snd (fetchMedals B cfg W) = [Fetch (API_URL cfg) (api_headers cfg)]
         \<or> snd (fetchMedals B cfg W)
             = [Fetch (API_URL cfg) (api_headers cfg),
                ExecFile (lit ''curl'') (curl_json_args (API_URL cfg) (api_headers cfg))]"
    using api_requests_only_api [of B cfg W] by (simp add: r)
qed

text \<open>
  When the API tier throws, the primary page is fetched and read; the secondary page
  is fetched and read only if the primary page was fetched and gave no team. The
  terminal error is thrown when both pages were fetched and neither gave a team.
\<close>

lemma fetchMedals_after_api_failure:
  assumes "throws (api_tier B cfg W)"
  shows "fetchMedals B cfg W =
         (case page_tier B cfg W of
            Inl e \<Rightarrow> (Inl e, api_requests B cfg W @ page_requests cfg W)
          | Inr teams \<Rightarrow>
              if teams \<noteq> [] then (Inr teams, api_requests B cfg W @ page_requests cfg W)
              else (case wiki_tier B cfg W of
                      Inl e \<Rightarrow> Inl e
                    | Inr teams' \<Rightarrow> if teams' = [] then Inl terminal_error else Inr teams',
                    api_requests B cfg W @ page_requests cfg W @ wiki_requests cfg W))"
  using assms
  by (auto simp: fetchMedals_tiers html_fallback_tiers throws_def split: sum.splits)

lemma fetchMedals_terminal_error:
  assumes "tier_failed (api_tier B cfg W)"
    and "page_tier B cfg W = Inr []"
    and "wiki_tier B cfg W = Inr []"
  shows "fst (fetchMedals B cfg W) = Inl terminal_error"
proof -
  have "throws (api_tier B cfg W)"
    using assms(1) fetchApiJson_not_empty [of B cfg W]
    by (auto simp: tier_failed_def throws_def api_tier_def split: sum.splits)
  then show ?thesis
    by (simp add: fetchMedals_after_api_failure assms(2,3))
qed

lemma trim_Norway:
  "trim (lit ''Norway'') = lit ''Norway''"
  by code_simp

lemma page_down_api:
  "fetchApiJson sample_builtins sample_config page_down_world
     = (Inl (Error (lit ''API returned no medal entries'')),
        [Fetch (API_URL sample_config) (api_headers sample_config)])"
  by (simp add: fetchApiJson_def sample_api_data api_teams_empty_standings)

lemma page_down_page:
  "httpGetText (page_fetch page_down_world) (page_curl page_down_world)
     (PAGE_URL sample_config) page_headers
   = (Inl (NetworkError (lit ''ECONNREFUSED'')),
      [Fetch (PAGE_URL sample_config) page_headers,
       ExecFile (lit ''curl'') (curl_text_args (PAGE_URL sample_config) page_headers)])"
  by (simp add: httpGetText_def direct_text_def page_down_world_def)

lemma page_down_wiki:
  "wiki_tier sample_builtins sample_config page_down_world = Inr [norway]"
proof -
  have h: "wiki_html sample_config page_down_world = Inr (lit ''wiki page'')"
    by (simp add: wiki_html_def httpGetText_def direct_text_def page_down_world_def)
  have t: "wikitable_exec sample_builtins (lit ''wiki page'') = Some (lit ''wiki rows'')"
    by (simp add: sample_builtins_def)
  have r: "wikirow_matchAll sample_builtins (lit ''wiki rows'')
      = [(lit ''Norway'', lit ''12'', lit ''7'', lit ''7'', lit ''26'')]"
    by (simp add: sample_builtins_def)
  have s: "strip_tags sample_builtins (lit ''Norway'') = lit ''Norway''"
    "replace_nbsp sample_builtins (lit ''Norway'') = lit ''Norway''"
    by (simp_all add: sample_builtins_def)
  have w: "wikirow_team sample_builtins
      (lit ''Norway'', lit ''12'', lit ''7'', lit ''7'', lit ''26'') = Inr norway"
    by (simp add: wikirow_team_def s trim_Norway take3_Norway upper_Nor3 withScore_def
        bind_err_simps digits_eval rnd_eval norway_def Let_def)
  show ?thesis
    by (simp add: wiki_tier_def h parseWikipedia_def t r w bind_err_simps sortTeams_single)
qed

lemma api_up_api:
  "fetchApiJson sample_builtins sample_config api_up_world
     = (Inr [norway],
        [Fetch (API_URL sample_config) (api_headers sample_config),
         ExecFile (lit ''curl'')
           (curl_json_args (API_URL sample_config) (api_headers sample_config))])"
proof -
  have d: "direct_json sample_builtins (api_fetch api_up_world)
      = Inl (Error (lit ''HTTP '' @ decimal 503))"
    by (simp add: direct_json_def api_up_world_def)
  have c: "bind_err (api_curl api_up_world) (JSON_parse sample_builtins)
      = Inr norway_standings"
    by (simp add: api_up_world_def sample_builtins_def bind_err_simps
        empty_standings_text_def norway_standings_text_def lit_def cu_def)
  have r: "api_teams sample_builtins norway_standings = Inr [norway]"
    by (simp add: api_teams_def norway_standings_def data_rows_def standings_rows_def
        opt_member_def opt_index0_def bind_err_simps row_to_team_norway sortTeams_single)
  show ?thesis
    by (simp add: fetchApiJson_def httpGetJson_def d c r)
qed

lemma fetchMedals_api_up:
  "fetchMedals sample_builtins sample_config api_up_world
     = (Inr [norway],
        [Fetch (API_URL sample_config) (api_headers sample_config),
         ExecFile (lit ''curl'')
           (curl_json_args (API_URL sample_config) (api_headers sample_config))])"
  using fetchMedals_api_success(2) [of sample_builtins sample_config api_up_world "[norway]"]
  by (simp add: api_tier_def api_requests_def api_up_api)

text \<open>
  Claim C1 requires a terminal error exactly when all three tiers fail or yield no
  record. The code does not do that when the fetch of the primary page fails: the call
  at line 211 is outside any \<^verbatim>\<open>try\<close>, unlike the API call six lines above it, so the
  transport error leaves \<^verbatim>\<open>fetchMedals\<close> before the secondary tier is tried. With the
  API answering no rows, the primary page unreachable and the secondary page holding
  Norway's row, \<^verbatim>\<open>fetchMedals\<close> throws the connection error after three requests, none of
  them for the secondary page, although the secondary tier on its own yields Norway;
  the error is not the terminal one.
\<close>

theorem fetchMedals_page_failure_aborts:
  "fetchMedals sample_builtins sample_config page_down_world
     = (Inl (NetworkError (lit ''ECONNREFUSED'')),
        [Fetch (API_URL sample_config) (api_headers sample_config),
         Fetch (PAGE_URL sample_config) page_headers,
         ExecFile (lit ''curl'') (curl_text_args (PAGE_URL sample_config) page_headers)])
   \<and> tier_failed (api_tier sample_builtins sample_config page_down_world)
   \<and> tier_failed (page_tier sample_builtins sample_config page_down_world)
   \<and> wiki_tier sample_builtins sample_config page_down_world = Inr [norway]
   \<and> \<not> tier_failed (wiki_tier sample_builtins sample_config page_down_world)
   \<and> wiki_requests sample_config page_down_world
       = [Fetch (WIKI_URL sample_config) page_headers]
   \<and> NetworkError (lit ''ECONNREFUSED'') \<noteq> terminal_error"
proof -
  have a: "fetchMedals sample_builtins sample_config page_down_world
     = (Inl (NetworkError (lit ''ECONNREFUSED'')),
        [Fetch (API_URL sample_config) (api_headers sample_config),
         Fetch (PAGE_URL sample_config) page_headers,
         ExecFile (lit ''curl'') (curl_text_args (PAGE_URL sample_config) page_headers)])"
    by (simp add: fetchMedals_def page_down_api html_fallback_def page_down_page)
  have b: "tier_failed (api_tier sample_builtins sample_config page_down_world)"
    by (simp add: tier_failed_def api_tier_def page_down_api)
  have c: "tier_failed (page_tier sample_builtins sample_config page_down_world)"
    by (simp add: tier_failed_def page_tier_def page_html_def page_down_page bind_err_simps)
  have d: "\<not> tier_failed (wiki_tier sample_builtins sample_config page_down_world)"
    by (simp add: tier_failed_def page_down_wiki)
  have e: "wiki_requests sample_config page_down_world
       = [Fetch (WIKI_URL sample_config) page_headers]"
    by (simp add: wiki_requests_def httpGetText_def direct_text_def page_down_world_def)
  have f: "NetworkError (lit ''ECONNREFUSED'') \<noteq> terminal_error"
    by (simp add: terminal_error_def)
  from a b c d e f page_down_wiki show ?thesis by simp
qed

section \<open>The Ranking Sorter\<close>

text \<open>
  Two binary64 values lie on the grid of the least subnormal, so their difference is
  zero or at least one grid step, and rounding keeps its sign: the comparator's
  subtractions decide the order of the keys exactly.
\<close>

lemma is_double_grid:
  assumes "is_double (Fin q)"
  shows "\<exists>k::int. q = of_int k * pow2 (- 1074)"
  using assms rnd_grid [of q q] by simp

lemma is_pos_not_neg:
  "is_pos x \<Longrightarrow> \<not> is_neg x"
  by (cases x) auto

lemma fin_sub_sign:
  assumes "is_double (Fin a)" "is_double (Fin b)"
  shows "is_pos (rnd (b - a)) = (a < b)" and "is_neg (rnd (b - a)) = (b < a)"
proof -
  obtain k l :: int where a: "a = of_int k * pow2 (- 1074)" and b: "b = of_int l * pow2 (- 1074)"
    using assms is_double_grid by blast
  have g: "0 < pow2 (- 1074)" by (rule pow2_pos)
  have d: "b - a = of_int (l - k) * pow2 (- 1074)"
    by (simp add: a b algebra_simps)
  consider "a < b" | "a = b" | "b < a" by linarith
  then have "is_pos (rnd (b - a)) = (a < b) \<and> is_neg (rnd (b - a)) = (b < a)"
  proof cases
    case 1
    then have "0 < of_int (l - k) * pow2 (- 1074)" using d by simp
    then have "0 < l - k" using g by (simp add: zero_less_mult_iff)
    then have "(1::rat) \<le> of_int (l - k)" by linarith
    then have "pow2 (- 1074) \<le> b - a"
      using g unfolding d by (metis mult_le_cancel_right_pos mult_1)
    then have "is_pos (rnd (b - a))" by (rule rnd_pos)
    then show ?thesis using 1 is_pos_not_neg by auto
  next
    case 2
    then show ?thesis by (simp add: rnd_0)
  next
    case 3
    then have "of_int (l - k) * pow2 (- 1074) < 0" using d by simp
    then have "l - k < 0" using g by (simp add: mult_less_0_iff)
    then have "of_int (l - k) \<le> (- 1::rat)" by linarith
    then have "of_int (l - k) * pow2 (- 1074) \<le> - 1 * pow2 (- 1074)"
      using g by (metis mult_le_cancel_right_pos)
    then have "b - a \<le> - pow2 (- 1074)" unfolding d by simp
    then have n: "is_neg (rnd (b - a))" by (rule rnd_neg)
    then have "\<not> is_pos (rnd (b - a))" using is_pos_not_neg by blast
    then show ?thesis using 3 n by auto
  qed
  then show "is_pos (rnd (b - a)) = (a < b)" and "is_neg (rnd (b - a)) = (b < a)"
    by simp_all
qed

lemma jsub_sign:
  assumes "is_double x" "is_double y"
  shows "is_pos (jsub y x) = jless x y" and "is_neg (jsub y x) = jless y x"
  using assms fin_sub_sign
  by (cases x; cases y; simp add: jsub_def)+

lemma strict_neq_double:
  "is_double x \<Longrightarrow> is_double y \<Longrightarrow> strict_neq x y = (x \<noteq> y)"
  by (cases x; cases y; simp add: strict_neq_def)

lemma jless_irrefl:
  "\<not> jless x x"
  by (cases x) auto

lemma jless_trans:
  "jless x y \<Longrightarrow> jless y z \<Longrightarrow> jless x z"
  by (cases x; cases y; cases z; simp)

lemma jless_total:
  "x \<noteq> NaN \<Longrightarrow> y \<noteq> NaN \<Longrightarrow> x \<noteq> y \<Longrightarrow> jless x y \<or> jless y x"
  by (cases x; cases y; auto)

lemma lexless_asym:
  "lexless xs ys \<Longrightarrow> \<not> lexless ys xs"
proof (induction xs ys rule: lexless.induct)
  case (1 x xs y ys)
  then show ?case using jless_trans jless_irrefl by auto
qed simp_all

lemma not_lexless_trans:
  assumes "length xs = length ys" "length ys = length zs"
    and "NaN \<notin> set xs" "NaN \<notin> set ys" "NaN \<notin> set zs"
    and "\<not> lexless xs ys" "\<not> lexless ys zs"
  shows "\<not> lexless xs zs"
  using assms
proof (induction xs arbitrary: ys zs)
  case Nil
  then show ?case by simp
next
  case (Cons x xs)
  then obtain y ys' z zs' where ys: "ys = y # ys'" and zs: "zs = z # zs'"
    by (metis length_Suc_conv)
  have n: "x \<noteq> NaN" "y \<noteq> NaN" "z \<noteq> NaN" using Cons.prems ys zs by auto
  have xy: "\<not> jless x y" "x = y \<Longrightarrow> \<not> lexless xs ys'"
    using Cons.prems(6) ys by auto
  have yz: "\<not> jless y z" "y = z \<Longrightarrow> \<not> lexless ys' zs'"
    using Cons.prems(7) ys zs by auto
  have a: "\<not> jless x z"
    using xy(1) yz(1) n jless_total jless_trans by metis
  have b: "\<not> lexless xs zs'" if "x = z"
  proof -
    have "x = y" using that xy(1) yz(1) n jless_total by metis
    then show ?thesis
      using Cons.IH [of ys' zs'] Cons.prems ys zs xy(2) yz(2) that by auto
  qed
  show ?case using a b zs by auto
qed

lemma cmp_pos:
  assumes "numeric_team a" "numeric_team b"
  shows "is_pos (sortTeams_cmp a b) = lexless (key_of a) (key_of b)"
  using assms
  by (simp add: sortTeams_cmp_def key_of_def numeric_team_def strict_neq_double jsub_sign
      jless_irrefl eq_commute flip: total_or_0_def)

lemma cmp_neg:
  assumes "numeric_team a" "numeric_team b"
  shows "is_neg (sortTeams_cmp a b) = lexless (key_of b) (key_of a)"
  using assms
  by (auto simp: sortTeams_cmp_def key_of_def numeric_team_def strict_neq_double jsub_sign
      jless_irrefl simp flip: total_or_0_def)

lemma key_of_no_NaN:
  "numeric_team t \<Longrightarrow> NaN \<notin> set (key_of t)"
  by (auto simp: numeric_team_def key_of_def simp flip: total_or_0_def)

lemma ranks_before_neg:
  assumes "numeric_team a" "numeric_team b" "is_neg (sortTeams_cmp a b)"
  shows "ranks_before a b"
  using assms is_pos_not_neg by (auto simp: ranks_before_def)

lemma ranks_before_not_neg:
  assumes "numeric_team a" "numeric_team b" "\<not> is_neg (sortTeams_cmp a b)"
  shows "ranks_before b a"
  using assms by (simp add: ranks_before_def cmp_pos cmp_neg)

lemma ranks_before_trans:
  assumes "numeric_team a" "numeric_team b" "numeric_team c"
    and "ranks_before a b" "ranks_before b c"
  shows "ranks_before a c"
  using assms not_lexless_trans [of "key_of a" "key_of b" "key_of c"] key_of_no_NaN
  by (simp add: ranks_before_def cmp_pos) (simp add: key_of_def)

lemma beats_iff:
  assumes "numeric_team a" "numeric_team b"
  shows "is_neg (sortTeams_cmp a b) = (\<not> ranks_before b a)"
  using assms by (simp add: ranks_before_def cmp_pos cmp_neg)

lemma ranks_before_total:
  assumes "numeric_team a" "numeric_team b"
  shows "ranks_before a b \<or> ranks_before b a"
  using assms lexless_asym by (auto simp: ranks_before_def cmp_pos)

text \<open>The run at the front.\<close>

lemma run_split_successively:
  "run_split d c prev xs = (r, rest) \<Longrightarrow>
     successively (\<lambda>a b. is_neg (c b a) = d) (prev # r)"
  by (induction xs arbitrary: prev r rest) (auto split: if_splits prod.splits)

lemma successively_ranks_sorted:
  assumes "successively ranks_before xs" "\<forall>t \<in> set xs. numeric_team t"
  shows "sorted_wrt ranks_before xs"
proof -
  have "successively ranks_before xs \<longleftrightarrow> sorted_wrt ranks_before xs"
    by (rule successively_iff_sorted_wrt_strong) (use assms(2) ranks_before_trans in blast)
  then show ?thesis using assms(1) by simp
qed

lemma successively_flip_sorted_rev:
  assumes "successively (\<lambda>a b. ranks_before b a) xs" "\<forall>t \<in> set xs. numeric_team t"
  shows "sorted_wrt ranks_before (rev xs)"
proof -
  have "successively (\<lambda>a b. ranks_before b a) xs \<longleftrightarrow> sorted_wrt (\<lambda>a b. ranks_before b a) xs"
    by (rule successively_iff_sorted_wrt_strong) (use assms(2) ranks_before_trans in blast)
  then show ?thesis using assms(1) by (simp add: sorted_wrt_rev)
qed

lemma sorted_count_and_make_run:
  assumes "count_and_make_run sortTeams_cmp xs = (run, rest)"
    and "\<forall>t \<in> set xs. numeric_team t"
  shows "sorted_wrt ranks_before run"
proof -
  consider (short) "xs = []" | (single) x where "xs = [x]"
    | (long) x0 x1 ys where "xs = x0 # x1 # ys"
    by (cases xs rule: remdups_adj.cases) auto
  then show ?thesis
  proof cases
    case short
    then show ?thesis using assms(1) by auto
  next
    case single
    then show ?thesis using assms(1) by auto
  next
    case long
    define d where "d = is_neg (sortTeams_cmp x1 x0)"
    obtain r rest' where s: "run_split d sortTeams_cmp x1 ys = (r, rest')"
      by (cases "run_split d sortTeams_cmp x1 ys")
    have ys: "ys = r @ rest'" using run_split_append [OF s] .
    have num: "\<forall>t \<in> set (x0 # x1 # r). numeric_team t"
      using assms(2) long ys by auto
    have succ: "successively (\<lambda>a b. is_neg (sortTeams_cmp b a) = d) (x0 # x1 # r)"
      using run_split_successively [OF s] by (simp add: d_def)
    show ?thesis
    proof (cases d)
      case True
      have "successively (\<lambda>a b. ranks_before b a) (x0 # x1 # r)"
        by (rule successively_mono [OF succ])
          (use num True ranks_before_neg in auto)
      then have "sorted_wrt ranks_before (rev (x0 # x1 # r))"
        using num by (rule successively_flip_sorted_rev)
      then show ?thesis using assms(1) long s True by (auto simp: d_def Let_def)
    next
      case False
      have "successively ranks_before (x0 # x1 # r)"
        by (rule successively_mono [OF succ])
          (use num False ranks_before_not_neg in auto)
      then have "sorted_wrt ranks_before (x0 # x1 # r)"
        using num by (rule successively_ranks_sorted)
      then show ?thesis using assms(1) long s False by (auto simp: d_def Let_def)
    qed
  qed
qed


text \<open>Binary insertion into a sorted front.\<close>

lemma bin_search_spec:
  assumes "sorted_wrt ranks_before a" "\<forall>t \<in> set a. numeric_team t" "numeric_team p"
    and "left \<le> right" "right \<le> length a"
    and "\<forall>i<left. ranks_before (a ! i) p"
    and "\<forall>i. right \<le> i \<and> i < length a \<longrightarrow> \<not> ranks_before (a ! i) p"
  shows "bin_search sortTeams_cmp p a left right \<le> length a
     \<and> (\<forall>i<bin_search sortTeams_cmp p a left right. ranks_before (a ! i) p)
     \<and> (\<forall>i. bin_search sortTeams_cmp p a left right \<le> i \<and> i < length a
            \<longrightarrow> \<not> ranks_before (a ! i) p)"
  using assms
proof (induction sortTeams_cmp p a left right rule: bin_search.induct)
  case (1 p a left right)
  show ?case
  proof (cases "left < right")
    case False
    then have "bin_search sortTeams_cmp p a left right = left"
      by (simp add: bin_search.simps [of _ _ _ left right])
    moreover have "left = right" using False "1.prems"(4) by simp
    ultimately show ?thesis using "1.prems" by auto
  next
    case True
    define mid where "mid = left + (right - left) div 2"
    have mid: "left \<le> mid" "mid < right" "mid < length a"
      using True "1.prems"(5) by (auto simp: mid_def)
    have nm: "numeric_team (a ! mid)" using mid "1.prems"(2) by simp
    have nth_num: "numeric_team (a ! i)" if "i < length a" for i
      using that "1.prems"(2) by simp
    show ?thesis
    proof (cases "is_neg (sortTeams_cmp p (a ! mid))")
      case neg: True
      then have nr: "\<not> ranks_before (a ! mid) p"
        using beats_iff [OF "1.prems"(3) nm] by simp
      have hi: "\<forall>i. mid \<le> i \<and> i < length a \<longrightarrow> \<not> ranks_before (a ! i) p"
      proof (intro allI impI)
        fix i assume i: "mid \<le> i \<and> i < length a"
        show "\<not> ranks_before (a ! i) p"
        proof (cases "i = mid")
          case True
          then show ?thesis using nr by simp
        next
          case False
          then have "ranks_before (a ! mid) (a ! i)"
            using i "1.prems"(1) by (simp add: sorted_wrt_nth_less)
          then show ?thesis
            using nr ranks_before_trans [OF nm nth_num "1.prems"(3)] i by blast
        qed
      qed
      have eq: "bin_search sortTeams_cmp p a left right = bin_search sortTeams_cmp p a left mid"
        using True neg by (simp add: bin_search.simps [of _ _ _ left right] mid_def Let_def)
      have "mid \<le> length a" using mid by simp
      from "1.hyps"(1) [OF True mid_def neg "1.prems"(1,2,3) mid(1) this "1.prems"(6) hi]
      show ?thesis unfolding eq by simp
    next
      case nonneg: False
      then have r: "ranks_before (a ! mid) p"
        using beats_iff [OF "1.prems"(3) nm] by simp
      have lo: "\<forall>i<mid + 1. ranks_before (a ! i) p"
      proof (intro allI impI)
        fix i assume i: "i < mid + 1"
        show "ranks_before (a ! i) p"
        proof (cases "i = mid")
          case True
          then show ?thesis using r by simp
        next
          case False
          then have "i < mid" using i by simp
          then have "ranks_before (a ! i) (a ! mid)"
            using mid "1.prems"(1) by (simp add: sorted_wrt_nth_less)
          then show ?thesis
            using r ranks_before_trans [OF nth_num nm "1.prems"(3)] i mid by simp
        qed
      qed
      have eq: "bin_search sortTeams_cmp p a left right
          = bin_search sortTeams_cmp p a (mid + 1) right"
        using True nonneg by (simp add: bin_search.simps [of _ _ _ left right] mid_def Let_def)
      have "mid + 1 \<le> right" using mid by simp
      from "1.hyps"(2) [OF True mid_def nonneg "1.prems"(1,2,3) this "1.prems"(5) lo "1.prems"(7)]
      show ?thesis unfolding eq by simp
    qed
  qed
qed

lemma bin_search_whole:
  assumes "sorted_wrt ranks_before a" "\<forall>t \<in> set a. numeric_team t" "numeric_team p"
  shows "bin_search sortTeams_cmp p a 0 (length a) \<le> length a"
    and "\<forall>i<bin_search sortTeams_cmp p a 0 (length a). ranks_before (a ! i) p"
    and "\<forall>i. bin_search sortTeams_cmp p a 0 (length a) \<le> i \<and> i < length a
            \<longrightarrow> \<not> ranks_before (a ! i) p"
proof -
  have "\<forall>i<(0::nat). ranks_before (a ! i) p" by simp
  moreover have "\<forall>i. length a \<le> i \<and> i < length a \<longrightarrow> \<not> ranks_before (a ! i) p"
    using leD by blast
  ultimately have s: "bin_search sortTeams_cmp p a 0 (length a) \<le> length a
     \<and> (\<forall>i<bin_search sortTeams_cmp p a 0 (length a). ranks_before (a ! i) p)
     \<and> (\<forall>i. bin_search sortTeams_cmp p a 0 (length a) \<le> i \<and> i < length a
            \<longrightarrow> \<not> ranks_before (a ! i) p)"
    by (intro bin_search_spec [OF assms]) simp_all
  show "bin_search sortTeams_cmp p a 0 (length a) \<le> length a" using s by (rule conjunct1)
  show "\<forall>i<bin_search sortTeams_cmp p a 0 (length a). ranks_before (a ! i) p"
    using s by (elim conjE)
  show "\<forall>i. bin_search sortTeams_cmp p a 0 (length a) \<le> i \<and> i < length a
            \<longrightarrow> \<not> ranks_before (a ! i) p"
    using s by (elim conjE)
qed

lemma sorted_bin_insert:
  assumes "sorted_wrt ranks_before a" "\<forall>t \<in> set a. numeric_team t" "numeric_team p"
  shows "sorted_wrt ranks_before (bin_insert sortTeams_cmp a p)"
proof -
  define k where "k = bin_search sortTeams_cmp p a 0 (length a)"
  note spec = bin_search_whole [OF assms, folded k_def]
  have "sorted_wrt ranks_before (take k a @ drop k a)"
    using assms(1) by (simp only: append_take_drop_id)
  then have parts: "sorted_wrt ranks_before (take k a)" "sorted_wrt ranks_before (drop k a)"
    "\<forall>x \<in> set (take k a). \<forall>y \<in> set (drop k a). ranks_before x y"
    unfolding sorted_wrt_append by blast+
  have before: "ranks_before x p" if mem: "x \<in> set (take k a)" for x
  proof -
    obtain i where i: "i < length (take k a)" "take k a ! i = x"
      using mem unfolding in_set_conv_nth by blast
    then have "i < k" "a ! i = x" by simp_all
    then show ?thesis using spec(2) by blast
  qed
  have after: "ranks_before p y" if mem: "y \<in> set (drop k a)" for y
  proof -
    obtain j where j: "j < length (drop k a)" "drop k a ! j = y"
      using mem unfolding in_set_conv_nth by blast
    then have "k \<le> k + j" "k + j < length a" "a ! (k + j) = y"
      using spec(1) by simp_all
    then have "\<not> ranks_before y p" using spec(3) by blast
    moreover have "numeric_team y" using mem assms(2) in_set_dropD by fast
    ultimately show ?thesis using ranks_before_total [OF assms(3), of y] by blast
  qed
  have "sorted_wrt ranks_before (p # drop k a)"
    using parts(2) after by simp
  then have "sorted_wrt ranks_before (take k a @ p # drop k a)"
    unfolding sorted_wrt_append using parts(1,3) before by simp
  then show ?thesis by (simp add: bin_insert_def k_def Let_def)
qed

lemma set_bin_insert:
  "set (bin_insert c a p) = insert p (set a)"
  using mset_bin_insert [of c a p] by (metis set_mset_add_mset_insert set_mset_mset)

lemma sorted_foldl_bin_insert:
  assumes "\<forall>t \<in> set xs. numeric_team t" "\<forall>t \<in> set acc. numeric_team t"
    and "sorted_wrt ranks_before acc"
  shows "sorted_wrt ranks_before (foldl (bin_insert sortTeams_cmp) acc xs)"
  using assms
proof (induction xs arbitrary: acc)
  case Nil
  then show ?case by simp
next
  case (Cons x xs)
  have "sorted_wrt ranks_before (bin_insert sortTeams_cmp acc x)"
    using Cons.prems by (simp add: sorted_bin_insert)
  moreover have "\<forall>t \<in> set (bin_insert sortTeams_cmp acc x). numeric_team t"
    using Cons.prems by (simp add: set_bin_insert)
  ultimately show ?case using Cons.IH [of "bin_insert sortTeams_cmp acc x"] Cons.prems by simp
qed

lemma sorted_sortTeams:
  assumes "\<forall>t \<in> set ts. numeric_team t"
  shows "sorted_wrt ranks_before (sortTeams ts)"
proof -
  obtain run rest where r: "count_and_make_run sortTeams_cmp ts = (run, rest)"
    by (cases "count_and_make_run sortTeams_cmp ts")
  have m: "mset run + mset rest = mset ts" by (rule mset_count_and_make_run [OF r])
  have "set_mset (mset run + mset rest) = set_mset (mset ts)"
    using m by simp
  then have "set run \<union> set rest = set ts"
    by simp
  then have n: "\<forall>t \<in> set rest. numeric_team t" "\<forall>t \<in> set run. numeric_team t"
    using assms by auto
  have "sorted_wrt ranks_before run"
    by (rule sorted_count_and_make_run [OF r assms])
  then show ?thesis
    using sorted_foldl_bin_insert [OF n] by (simp add: sortTeams_def array_sort_def r)
qed


lemma numeric_team_keys:
  "numeric_team t \<longleftrightarrow> list_all is_double (key_of t)"
  by (auto simp: numeric_team_def key_of_def total_or_0_def)

lemma sorted_by_keys:
  assumes "\<forall>t \<in> set ts. numeric_team t"
  shows "sorted_wrt (\<lambda>a b. \<not> lexless (key_of a) (key_of b)) (sortTeams ts)"
proof -
  have s: "set (sortTeams ts) = set ts"
    using mset_sortTeams [of ts] by (metis set_mset_mset)
  have "sorted_wrt ranks_before (sortTeams ts)"
    using assms by (rule sorted_sortTeams)
  then show ?thesis
    by (rule sorted_wrt_mono_rel [rotated]) (use assms s in \<open>simp add: ranks_before_def cmp_pos\<close>)
qed

lemma withScore_samples:
  "withScore bob_entry = Inr bob" "withScore amy_entry = Inr amy"
  "withScore cat_entry = Inr cat"
  by (simp_all add: withScore_def bob_entry_def amy_entry_def cat_entry_def bob_def amy_def
      cat_def bind_err_simps digits_eval rnd_eval)

lemma sort_nan_samples:
  "sortTeams [bob, amy, cat] = [bob, amy, cat]"
  by (simp add: sortTeams_def array_sort_def sortTeams_cmp_def strict_neq_def jsub_def
      bob_def amy_def cat_def Let_def)

lemma cat_outranks_bob:
  "lexless (key_of bob) (key_of cat)" "is_pos (sortTeams_cmp bob cat)"
  by (simp_all add: key_of_def sortTeams_cmp_def strict_neq_def jsub_def bob_def cat_def
      rnd_eval)

text \<open>
  Claim C3, as stated, fails where a key is NaN, which \<^verbatim>\<open>withScore\<close> produces from a
  count that is no number: of the records of Bob (1 gold, 2 bronze), Amy (gold
  \<^verbatim>\<open>"-"\<close>) and Cat (3 gold, 1 bronze) the teams with scores 5, NaN and 10 are left in
  this order by \<^verbatim>\<open>sortTeams\<close>, Bob before Cat, although Bob's keys are below Cat's and
  the comparator itself puts Cat first.
\<close>

theorem sortTeams_nan_counterexample:
  "withScore bob_entry = Inr bob \<and> withScore amy_entry = Inr amy
   \<and> withScore cat_entry = Inr cat
   \<and> sortTeams [bob, amy, cat] = [bob, amy, cat]
   \<and> lexless (key_of bob) (key_of cat)
   \<and> is_pos (sortTeams_cmp bob cat)"
  by (simp add: withScore_samples sort_nan_samples cat_outranks_bob)

text \<open>
  Claim C3, amended. For every collection of Teams in which each of the five keys of
  every team (score, gold, silver, bronze, total, a missing total counting as 0) is a
  Number other than NaN, \<^verbatim>\<open>sortTeams\<close> returns a sequence in which no team has keys
  below those of a later team, holding the same teams, each as often as it was given;
  on these teams the comparator is positive exactly when the keys of its first
  argument are below those of its second.
\<close>

theorem sortTeams_sorted:
  assumes "\<forall>t \<in> set ts. list_all is_double (key_of t)"
  shows "sorted_wrt (\<lambda>a b. \<not> lexless (key_of a) (key_of b)) (sortTeams ts)
     \<and> mset (sortTeams ts) = mset ts
     \<and> (\<forall>a \<in> set ts. \<forall>b \<in> set ts.
          is_pos (sortTeams_cmp a b) = lexless (key_of a) (key_of b))"
proof -
  have n: "\<forall>t \<in> set ts. numeric_team t"
    using assms by (simp add: numeric_team_keys)
  show ?thesis
    using n sorted_by_keys [OF n] mset_sortTeams [of ts] by (simp add: cmp_pos)
qed

lemma numeric_samples:
  "list_all is_double (key_of team_A)" "list_all is_double (key_of team_B)"
  by (simp_all add: key_of_def team_A_def team_B_def rnd_eval)

lemma sort_samples:
  "sortTeams [team_A, team_B] = [team_B, team_A]"
  by (simp add: sortTeams_def array_sort_def sortTeams_cmp_def strict_neq_def jsub_def
      team_A_def team_B_def rnd_eval Let_def)

lemma key_samples:
  "lexless (key_of team_A) (key_of team_B)"
  by (simp add: key_of_def team_A_def team_B_def)

theorem sortTeams_sorted_witness:
  "list_all is_double (key_of team_A) \<and> list_all is_double (key_of team_B)
   \<and> sortTeams [team_A, team_B] = [team_B, team_A]
   \<and> \<not> lexless (key_of team_B) (key_of team_A)
   \<and> mset [team_B, team_A] = mset [team_A, team_B]
   \<and> is_pos (sortTeams_cmp team_A team_B)"
proof -
  have n: "\<forall>t \<in> set [team_A, team_B]. list_all is_double (key_of t)"
    using numeric_samples by simp
  from sortTeams_sorted [OF n] numeric_samples key_samples show ?thesis
    by (simp add: sort_samples)
qed

end
